theory Spec2Isabelle
  imports Main "HOL-Library.Word" "HOL-Library.Sublist" "HOL-Library.Signed_Division"
begin

unbundle bit_operations_syntax

section \<open>Shared vocabulary\<close>

type_synonym byte = "8 word"

text \<open>
  Go's \<^verbatim>\<open>strings.Contains(s, substr)\<close>: \<open>substr\<close> occurs in \<open>s\<close> as a contiguous
  run of bytes; the empty string occurs in every string.
\<close>

fun Contains :: "string \<Rightarrow> string \<Rightarrow> bool" where
  "Contains [] substr = (substr = [])"
| "Contains (c # s) substr = (prefix substr (c # s) \<or> Contains s substr)"

text \<open>Decimal rendering of a non-negative number, as \<^verbatim>\<open>%d\<close> prints it.\<close>

definition digit_char :: "nat \<Rightarrow> char" where
  "digit_char d = char_of (48 + d)"

function itoa :: "nat \<Rightarrow> string" where
  "itoa n = (if n < 10 then [digit_char n] else itoa (n div 10) @ [digit_char (n mod 10)])"
  by pat_completeness auto
termination
  by (relation "measure (\<lambda>n. n)") auto

declare itoa.simps [simp del]

section \<open>rpc/args.go: the FileInfo snapshot\<close>

text \<open>
  \<^verbatim>\<open>time.Time\<close> as seconds since January 1, year 1 and nanoseconds within the second;
  \<^verbatim>\<open>IsZero\<close> holds for exactly that instant.
\<close>

record Time =
  sec :: int
  nsec :: int

definition IsZero :: "Time \<Rightarrow> bool" where
  "IsZero t = (sec t = 0 \<and> nsec t = 0)"

type_synonym FileMode = "32 word"

definition ModeDir :: FileMode where
  "ModeDir = push_bit 31 1"

definition FileMode_IsDir :: "FileMode \<Rightarrow> bool" where
  "FileMode_IsDir m = (m AND ModeDir \<noteq> 0)"

text \<open>
  The \<^verbatim>\<open>os.FileInfo\<close> handed to \<^verbatim>\<open>FileInfo\<close> is an interface value: it is represented
  by what its methods return. \<open>'s\<close> stands for the untyped \<^verbatim>\<open>Sys()\<close> payload.
\<close>

record 's os_FileInfo =
  os_Name :: string
  os_Size :: "64 word"
  os_Mode :: FileMode
  os_ModTime :: Time
  os_Sys :: 's

record 's fileInfo =
  N :: string
  S :: "64 word"
  M :: FileMode
  T :: Time
  Sy :: 's

definition FileInfo :: "'s os_FileInfo \<Rightarrow> 's fileInfo" where
  "FileInfo fi = \<lparr> N = os_Name fi, S = os_Size fi, M = os_Mode fi, T = os_ModTime fi, Sy = os_Sys fi \<rparr>"

definition Name :: "'s fileInfo \<Rightarrow> string" where
  "Name fi = N fi"

definition Size :: "'s fileInfo \<Rightarrow> 64 word" where
  "Size fi = S fi"

definition Mode :: "'s fileInfo \<Rightarrow> FileMode" where
  "Mode fi = M fi"

text \<open>
  \<^verbatim>\<open>ModTime\<close> reads the clock when the stored time is zero: the second argument is what
  \<^verbatim>\<open>time.Now()\<close> returns at the moment of the call.
\<close>

definition ModTime :: "'s fileInfo \<Rightarrow> Time \<Rightarrow> Time" where
  "ModTime fi now = (if IsZero (T fi) then now else T fi)"

definition IsDir :: "'s fileInfo \<Rightarrow> bool" where
  "IsDir fi = FileMode_IsDir (M fi)"

definition Sys :: "'s fileInfo \<Rightarrow> 's" where
  "Sys fi = Sy fi"

section \<open>starter/master_linux.go\<close>

subsection \<open>startContainer\<close>

text \<open>
  One \<^verbatim>\<open>conn.Read(data)\<close> on the one-byte buffer: a byte arrives (it is stored in
  \<^verbatim>\<open>data[0]\<close>, the error is nil), or the read fails with \<^verbatim>\<open>io.EOF\<close> or with another
  error (the buffer keeps what it held).
\<close>

datatype read_result = RByte char | REOF | RErr string

text \<open>
  What the master's start synchronizer meets: whether \<^verbatim>\<open>os.NewFile\<close> and
  \<^verbatim>\<open>net.FileConn\<close> succeed, whether the engine's operations implement
  \<^verbatim>\<open>PreStartProcess\<close> and what it returns, the successive reads of the master socket, and
  what \<^verbatim>\<open>PostStartProcess\<close> returns.
\<close>

record start_env =
  new_file_ok :: bool
  file_conn_err :: "string option"
  pre_start :: "string option option"
  conn_read :: "nat \<Rightarrow> read_result"
  post_start :: "string option"

datatype start_event =
    FatalSend string
  | ConnRead
  | CallPreStartProcess
  | CallPostStartProcess
  | ConnClose

text \<open>The buffer after a read, and the error the read reports.\<close>

fun read_into :: "char \<Rightarrow> read_result \<Rightarrow> char" where
  "read_into d (RByte b) = b"
| "read_into d REOF = d"
| "read_into d (RErr e) = d"

text \<open>
  The tail of \<^verbatim>\<open>startContainer\<close> from the comment "wait container process execution":
  \<open>k\<close> is the number of reads done so far and \<open>d\<close> the content of \<^verbatim>\<open>data[0]\<close>.
\<close>

definition waitExec :: "start_env \<Rightarrow> nat \<Rightarrow> char \<Rightarrow> start_event list" where
  "waitExec env k d =
     (let r = conn_read env k; d' = read_into d r in
      if (case r of RErr e \<Rightarrow> True | _ \<Rightarrow> False) \<or> d' = CHR ''f''
      then [ConnRead]
      else (case post_start env of
              Some e \<Rightarrow> [ConnRead, CallPostStartProcess,
                         FatalSend (''post start process failed: '' @ e)]
            | None \<Rightarrow> [ConnRead, CallPostStartProcess]))"

definition startContainer :: "start_env \<Rightarrow> start_event list" where
  "startContainer env =
     (if \<not> new_file_ok env then [FatalSend ''bad master socket file descriptor'']
      else case file_conn_err env of
        Some e \<Rightarrow> [FatalSend (''failed to create master connection: '' @ e)]
      | None \<Rightarrow>
         (case pre_start env of
            None \<Rightarrow> waitExec env 0 (CHR 0x00)
          | Some pre \<Rightarrow>
             (case conn_read env 0 of
                RErr e \<Rightarrow> [ConnRead, FatalSend (''error while reading master socket data: '' @ e)]
              | REOF \<Rightarrow> [ConnRead]
              | RByte b \<Rightarrow>
                  if b = CHR ''f'' then [ConnRead]
                  else (case pre of
                          Some e \<Rightarrow> [ConnRead, CallPreStartProcess,
                                     FatalSend (''pre start process failed: '' @ e)]
                        | None \<Rightarrow> [ConnRead, CallPreStartProcess] @ waitExec env 1 b)))
         @ [ConnClose])"

subsection \<open>Master: the signal channel\<close>

text \<open>
  \<^verbatim>\<open>signals := make(chan os.Signal, 2); signal.Notify(signals)\<close>. The channel is a bounded
  queue. \<^verbatim>\<open>signal.Notify\<close> relays the listed signals to the channel, and every incoming
  signal when the list is empty; it never blocks, so a signal that arrives while the
  queue is full is dropped.
\<close>

type_synonym signal = nat

definition SIGURG :: signal where
  "SIGURG = 23"

record sig_chan =
  chan_cap :: nat
  chan_buf :: "signal list"
  notified :: "signal list option"

definition make_chan :: "nat \<Rightarrow> sig_chan" where
  "make_chan n = \<lparr> chan_cap = n, chan_buf = [], notified = None \<rparr>"

definition Notify :: "sig_chan \<Rightarrow> signal list \<Rightarrow> sig_chan" where
  "Notify c sigs = c \<lparr> notified := Some sigs \<rparr>"

definition relayed :: "sig_chan \<Rightarrow> signal \<Rightarrow> bool" where
  "relayed c s = (case notified c of None \<Rightarrow> False | Some sigs \<Rightarrow> sigs = [] \<or> s \<in> set sigs)"

definition deliver :: "sig_chan \<Rightarrow> signal \<Rightarrow> sig_chan" where
  "deliver c s =
     (if relayed c s \<and> length (chan_buf c) < chan_cap c
      then c \<lparr> chan_buf := chan_buf c @ [s] \<rparr> else c)"

definition Master_signals :: sig_chan where
  "Master_signals = Notify (make_chan 2) []"

subsection \<open>Master: the wait status and the exit\<close>

text \<open>
  \<^verbatim>\<open>syscall.WaitStatus\<close> on Linux is a 32-bit word: the low seven bits are 0 for a normal
  exit (the exit status is the next byte), 0x7F for a stopped child, and the number of
  the terminating signal otherwise.
\<close>

type_synonym WaitStatus = "32 word"

definition Exited :: "WaitStatus \<Rightarrow> bool" where
  "Exited w = (w AND 0x7F = 0)"

definition Signaled :: "WaitStatus \<Rightarrow> bool" where
  "Signaled w = (w AND 0x7F \<noteq> 0x7F \<and> w AND 0x7F \<noteq> 0)"

definition ExitStatus :: "WaitStatus \<Rightarrow> int" where
  "ExitStatus w = (if \<not> Exited w then - 1 else uint (drop_bit 8 w AND 0xFF))"

definition Signal :: "WaitStatus \<Rightarrow> int" where
  "Signal w = (if \<not> Signaled w then - 1 else uint (w AND 0x7F))"

text \<open>
  \<^verbatim>\<open>Master\<close> from the receive on the fatal channel onwards. \<open>fatal\<close> is the value
  received (nil, sent by the monitor task after \<^verbatim>\<open>MonitorContainer\<close> returned without
  error, or the first error of any task), \<open>status\<close> the wait status variable at that
  moment, \<open>cleanup_err\<close> what \<^verbatim>\<open>CleanupContainer\<close> returns. Debug logging is left out;
  \<^verbatim>\<open>sylog.Fatalf\<close> ends the process. The result lists the calls in the order in which
  \<^verbatim>\<open>Master\<close> makes them; the final \<^verbatim>\<open>os.Exit\<close> is the statement after the raise, reached
  when the raised signal has not ended the process.
\<close>

record master_env =
  fatal :: "string option"
  status :: WaitStatus
  cleanup_err :: "string option"

datatype master_event =
    CleanupContainer "string option" WaitStatus
  | Errorf string
  | Fatalf string
  | SignalReset
  | Raise int
  | OsExit int

definition Master :: "master_env \<Rightarrow> master_event list" where
  "Master env =
     [CleanupContainer (fatal env) (status env)]
     @ (case cleanup_err env of
          Some e \<Rightarrow> [Errorf (''container cleanup failed: '' @ e)]
        | None \<Rightarrow> [])
     @ (case fatal env of
          Some f \<Rightarrow> [Fatalf f]
        | None \<Rightarrow>
            [SignalReset]
            @ (if Signaled (status env)
               then [Raise (Signal (status env)), OsExit (128 + Signal (status env))]
               else if Exited (status env)
               then [OsExit (ExitStatus (status env))]
               else [OsExit 0]))"

section \<open>crypt: the LUKS2 layer\<close>

subsection \<open>Errors, the world outside, and the effects performed\<close>

text \<open>\<^verbatim>\<open>time.Duration\<close> is a signed 64-bit count of nanoseconds.\<close>

type_synonym Duration = "64 word"

definition Millisecond :: Duration where
  "Millisecond = 1000000"

definition Second :: Duration where
  "Second = 1000000000"

text \<open>
  One constructor per place where the package makes an error; \<open>ErrExt\<close> is an error
  handed over unchanged from a collaborator (\<^verbatim>\<open>bin\<close>, \<^verbatim>\<open>lock\<close>, \<^verbatim>\<open>os\<close>, \<^verbatim>\<open>exec\<close>,
  \<^verbatim>\<open>safecast\<close>), known by its message.
\<close>

datatype error =
    ErrUnsupportedCryptsetupVersion
  | ErrInvalidPassphrase
  | ErrExt string
  | ErrAttach string string
  | ErrMustBeOwnedByRoot string
  | ErrBinaryPathNotDefined
  | ErrVersionRun string
  | ErrStatSize string
  | ErrFormat string string
  | ErrLock
  | ErrIdGeneration string
  | ErrNextDevice error
  | ErrCryptNotAvailable
  | ErrOpenFailed string "error option"
  | ErrDidNotShowUp string Duration
  | ErrUnableToOpen
  | ErrOpenSource string
  | ErrOpenDest string
  | ErrRead string
  | ErrWrite string
  | PanicSliceBounds

definition show_int :: "int \<Rightarrow> string" where
  "show_int i = (if i < 0 then ''-'' @ itoa (nat (- i)) else itoa (nat i))"

fun Error :: "error \<Rightarrow> string" where
  "Error ErrUnsupportedCryptsetupVersion =
     ''installed version of cryptsetup is not supported, >=2.0.0 required''"
| "Error ErrInvalidPassphrase = ''no key available with this passphrase''"
| "Error (ErrExt m) = m"
| "Error (ErrAttach p m) = ''failed to attach image '' @ p @ '': '' @ m"
| "Error (ErrMustBeOwnedByRoot p) = p @ '' must be owned by root''"
| "Error ErrBinaryPathNotDefined = ''binary path not defined''"
| "Error (ErrVersionRun m) = ''failed to run cryptsetup --version: '' @ m"
| "Error (ErrStatSize p) = ''failed getting size of '' @ p"
| "Error (ErrFormat f out) = ''unable to format crypt device: '' @ f @ '': '' @ out"
| "Error ErrLock = ''unable to acquire lock on /dev/mapper''"
| "Error (ErrIdGeneration m) = ''id generation failed: '' @ m"
| "Error (ErrNextDevice e) = ''while getting next device: '' @ Error e"
| "Error ErrCryptNotAvailable = [CHR 0xD1, CHR 0x81] @ ''rypt device not available''"
| "Error (ErrOpenFailed out e) =
     ''cryptsetup open failed: '' @ out @ '': ''
       @ (case e of None \<Rightarrow> ''<nil>'' | Some e' \<Rightarrow> Error e')"
| "Error (ErrDidNotShowUp name secs) =
     ''device /dev/mapper/'' @ name @ '' did not show up within ''
       @ show_int (sint secs) @ '' seconds''"
| "Error ErrUnableToOpen = ''unable to open crypt device''"
| "Error (ErrOpenSource p) = ''unable to open the file '' @ p"
| "Error (ErrOpenDest p) = ''unable to open the file: '' @ p"
| "Error (ErrRead p) = ''unable to read the file '' @ p"
| "Error (ErrWrite p) = ''unable to write to destination '' @ p"
| "Error PanicSliceBounds = ''slice bounds out of range''"

datatype stat_result = StatOk | StatNotExist | StatErr string

datatype open_flag = O_RDONLY | O_WRONLY

datatype sys_read_result = ReadN "byte list" | ReadFail

datatype sys_write_result = WriteN nat | WriteFail

text \<open>
  Everything the package asks of its collaborators and of the kernel, as the answers it
  gets:
  \<^item> \<open>lock_exclusive p\<close>: the error of \<^verbatim>\<open>lock.Exclusive(p)\<close>, if any;
  \<^item> \<open>find_bin n\<close>: \<^verbatim>\<open>bin.FindBin(n)\<close>, an error or the path found;
  \<^item> \<open>is_owner p uid\<close>: \<^verbatim>\<open>fs.IsOwner(p, uid)\<close>;
  \<^item> \<open>new_uuid k\<close>: the \<open>k\<close>-th \<^verbatim>\<open>uuid.NewRandom()\<close> of the call, an error or the
    identifier as a string;
  \<^item> \<open>run_cmd argv stdin\<close>: running the command, its combined output and its error;
  \<^item> \<open>stdin_pipe\<close>: the error of \<^verbatim>\<open>cmd.StdinPipe()\<close>, if any;
  \<^item> \<open>stat_path p k\<close>: \<^verbatim>\<open>os.Stat(p)\<close> at the \<open>k\<close>-th poll;
  \<^item> \<open>stat_size p\<close>: \<^verbatim>\<open>os.Stat(p)\<close> and the size it reports;
  \<^item> \<open>create_temp dir\<close>, \<open>truncate_file\<close>: \<^verbatim>\<open>os.CreateTemp(dir, "crypt-")\<close> and
    \<^verbatim>\<open>os.Truncate\<close>;
  \<^item> \<open>get_max_loop_devices\<close>, \<open>attach_from_path\<close>: the \<^verbatim>\<open>loop\<close> package;
  \<^item> \<open>sys_open\<close>, \<open>sys_read k\<close>, \<open>sys_write k buf\<close>: whether \<^verbatim>\<open>syscall.Open\<close> succeeds,
    the \<open>k\<close>-th \<^verbatim>\<open>syscall.Read\<close> on the source and the \<open>k\<close>-th \<^verbatim>\<open>syscall.Write\<close> to
    the destination;
  \<^item> \<open>conversion_msg i\<close>: the message of the error \<^verbatim>\<open>safecast.ToUint64\<close> gives for a
    negative \<open>i\<close>.
\<close>

record world =
  lock_exclusive :: "string \<Rightarrow> string option"
  find_bin :: "string \<Rightarrow> string + string"
  is_owner :: "string \<Rightarrow> nat \<Rightarrow> bool"
  new_uuid :: "nat \<Rightarrow> string + string"
  run_cmd :: "string list \<Rightarrow> byte list \<Rightarrow> string \<times> string option"
  stdin_pipe :: "string option"
  stat_path :: "string \<Rightarrow> nat \<Rightarrow> stat_result"
  stat_size :: "string \<Rightarrow> string + 64 word"
  create_temp :: "string \<Rightarrow> string + string"
  truncate_file :: "string \<Rightarrow> 64 word \<Rightarrow> string option"
  get_max_loop_devices :: "string + nat"
  attach_from_path :: "string \<Rightarrow> nat \<Rightarrow> 64 word \<Rightarrow> 64 word \<Rightarrow> string + nat"
  sys_open :: "string \<Rightarrow> open_flag \<Rightarrow> bool"
  sys_read :: "nat \<Rightarrow> sys_read_result"
  sys_write :: "nat \<Rightarrow> byte list \<Rightarrow> sys_write_result"
  conversion_msg :: "64 word \<Rightarrow> string"

datatype event =
    Lock string
  | Release string
  | Exec "string list" "byte list"
  | Sleep Duration
  | CreateTemp string
  | Truncate string "64 word"
  | AttachLoop string nat
  | CopyTo string "byte list"

fun is_Exec :: "event \<Rightarrow> bool" where
  "is_Exec (Exec argv stdin) = True"
| "is_Exec _ = False"



subsection \<open>createLoop, CloseCryptDevice, checkCryptsetupVersion\<close>

definition createLoop :: "world \<Rightarrow> string \<Rightarrow> 64 word \<Rightarrow> 64 word \<Rightarrow> (error + string) \<times> event list" where
  "createLoop w path offset sizelimit =
     (case get_max_loop_devices w of
        Inl e \<Rightarrow> (Inl (ErrExt e), [])
      | Inr maxLoopDev \<Rightarrow>
          (case attach_from_path w path maxLoopDev offset sizelimit of
             Inl e \<Rightarrow> (Inl (ErrAttach path e), [])
           | Inr idx \<Rightarrow> (Inr (''/dev/loop'' @ itoa idx), [AttachLoop path idx])))"

definition CloseCryptDevice :: "world \<Rightarrow> string \<Rightarrow> error option \<times> event list" where
  "CloseCryptDevice w path =
     (case find_bin w ''cryptsetup'' of
        Inl e \<Rightarrow> (Some (ErrExt e), [])
      | Inr cryptsetup \<Rightarrow>
          if \<not> is_owner w cryptsetup 0 then (Some (ErrMustBeOwnedByRoot cryptsetup), [])
          else (case lock_exclusive w ''/dev/mapper'' of
                  Some e \<Rightarrow> (Some (ErrExt e), [])
                | None \<Rightarrow>
                    (case snd (run_cmd w [cryptsetup, ''close'', path] []) of
                       Some e \<Rightarrow> (Some (ErrExt e),
                                  [Lock ''/dev/mapper'', Exec [cryptsetup, ''close'', path] [],
                                   Release ''/dev/mapper''])
                     | None \<Rightarrow> (None,
                                [Lock ''/dev/mapper'', Exec [cryptsetup, ''close'', path] [],
                                 Release ''/dev/mapper'']))))"

definition checkCryptsetupVersion :: "world \<Rightarrow> string \<Rightarrow> error option \<times> event list" where
  "checkCryptsetupVersion w cryptsetup =
     (if cryptsetup = [] then (Some ErrBinaryPathNotDefined, [])
      else (case run_cmd w [cryptsetup, ''--version''] [] of
              (out, Some e) \<Rightarrow> (Some (ErrVersionRun e), [Exec [cryptsetup, ''--version''] []])
            | (out, None) \<Rightarrow>
                if \<not> Contains out ''cryptsetup 2.''
                then (Some ErrUnsupportedCryptsetupVersion, [Exec [cryptsetup, ''--version''] []])
                else (None, [Exec [cryptsetup, ''--version''] []])))"

subsection \<open>copyDeviceContents\<close>

text \<open>
  The two nested loops. Neither has a bound of its own: a read that returns no bytes
  leaves \<^verbatim>\<open>writtenSoFar\<close> where it was, and so does a write that writes none. Not
  returning is the value \<open>None\<close>.
\<close>

record copy_state =
  reads_done :: nat
  writes_done :: nat
  writtenSoFar :: "64 word"
  dest_data :: "byte list"

definition copy_init :: copy_state where
  "copy_init = \<lparr> reads_done = 0, writes_done = 0, writtenSoFar = 0, dest_data = [] \<rparr>"

partial_function (option) writeLoop ::
  "world \<Rightarrow> string \<Rightarrow> byte list \<Rightarrow> nat \<Rightarrow> copy_state \<Rightarrow> (error option \<times> copy_state) option" where
  "writeLoop w dest buffer n st =
     (if n < length buffer then
        (case sys_write w (writes_done st) (drop n buffer) of
           WriteFail \<Rightarrow> Some (Some (ErrWrite dest), st \<lparr> writes_done := writes_done st + 1 \<rparr>)
         | WriteN numWritten \<Rightarrow>
             writeLoop w dest buffer (n + numWritten)
               (st \<lparr> writes_done := writes_done st + 1,
                     writtenSoFar := writtenSoFar st + of_nat numWritten,
                     dest_data := dest_data st @ take numWritten (drop n buffer) \<rparr>))
      else Some (None, st))"

partial_function (option) copyLoop ::
  "world \<Rightarrow> string \<Rightarrow> string \<Rightarrow> 64 word \<Rightarrow> copy_state \<Rightarrow> (error option \<times> copy_state) option" where
  "copyLoop w source dest sz st =
     (if writtenSoFar st <s sz then
        (case sys_read w (reads_done st) of
           ReadFail \<Rightarrow> Some (Some (ErrRead source), st \<lparr> reads_done := reads_done st + 1 \<rparr>)
         | ReadN buffer \<Rightarrow>
             if 10240 < length buffer
             then Some (Some PanicSliceBounds, st \<lparr> reads_done := reads_done st + 1 \<rparr>)
             else Option.bind (writeLoop w dest buffer 0 (st \<lparr> reads_done := reads_done st + 1 \<rparr>))
                    (\<lambda>r. case fst r of
                            Some e \<Rightarrow> Some r
                          | None \<Rightarrow> copyLoop w source dest sz (snd r)))
      else Some (None, st))"

definition copyDeviceContents ::
  "world \<Rightarrow> string \<Rightarrow> string \<Rightarrow> 64 word \<Rightarrow> (error option \<times> copy_state) option" where
  "copyDeviceContents w source dest sz =
     (if \<not> sys_open w source O_RDONLY then Some (Some (ErrOpenSource source), copy_init)
      else if \<not> sys_open w dest O_WRONLY then Some (Some (ErrOpenDest dest), copy_init)
      else copyLoop w source dest sz copy_init)"

subsection \<open>Open\<close>

definition getNextAvailableCryptDevice :: "world \<Rightarrow> nat \<Rightarrow> error + string" where
  "getNextAvailableCryptDevice w k =
     (case new_uuid w k of Inl e \<Rightarrow> Inl (ErrIdGeneration e) | Inr ident \<Rightarrow> Inr ident)"

text \<open>
  The wait for \<^verbatim>\<open>/dev/mapper/<name>\<close>: \<^verbatim>\<open>for attempt := 0; true; attempt++\<close>. The loop
  has no condition; it is left only by a return or the \<^verbatim>\<open>break\<close>. The delays are
  64-bit durations, the shift is a 64-bit shift.
\<close>

partial_function (option) pollDevice ::
  "world \<Rightarrow> string \<Rightarrow> nat \<Rightarrow> event list \<Rightarrow> (error option \<times> event list) option" where
  "pollDevice w nextCrypt attempt tr =
     (case stat_path w (''/dev/mapper/'' @ nextCrypt) attempt of
        StatOk \<Rightarrow> Some (None, tr)
      | StatErr e \<Rightarrow> Some (Some (ErrExt e), tr)
      | StatNotExist \<Rightarrow>
          (let delayNext = 100 * push_bit attempt 1 * Millisecond;
               delaySoFar = delayNext - 1
           in if 25500 * Millisecond \<le>s delaySoFar
              then Some (Some (ErrDidNotShowUp nextCrypt
                                 (word_of_int (sint delaySoFar sdiv sint Second))), tr)
              else pollDevice w nextCrypt (attempt + 1) (tr @ [Sleep delayNext])))"

definition maxRetries :: nat where
  "maxRetries = 3"

definition open_argv :: "string \<Rightarrow> string \<Rightarrow> string \<Rightarrow> string list" where
  "open_argv cryptsetup path nextCrypt =
     [cryptsetup, ''open'', ''--batch-mode'', ''--type'', ''luks2'', ''--key-file'', ''-'',
      path, nextCrypt]"

text \<open>
  The retry loop \<^verbatim>\<open>for i := 0; i < maxRetries; i++\<close> of \<^verbatim>\<open>Open\<close>, from iteration \<open>i\<close>
  with the effects \<open>tr\<close> performed so far.
\<close>

function openAttempts ::
  "world \<Rightarrow> string \<Rightarrow> byte list \<Rightarrow> string \<Rightarrow> nat \<Rightarrow> event list
     \<Rightarrow> ((error + string) \<times> event list) option" where
  "openAttempts w cryptsetup key path i tr =
     (if i < maxRetries then
        (case getNextAvailableCryptDevice w i of
           Inl e \<Rightarrow> Some (Inl (ErrNextDevice e), tr)
         | Inr nextCrypt \<Rightarrow>
             if nextCrypt = [] then Some (Inl ErrCryptNotAvailable, tr)
             else (case run_cmd w (open_argv cryptsetup path nextCrypt) key of
                     (out, Some e) \<Rightarrow>
                        if Contains out ''Device already exists''
                        then openAttempts w cryptsetup key path (i + 1)
                               (tr @ [Exec (open_argv cryptsetup path nextCrypt) key])
                        else (case checkCryptsetupVersion w cryptsetup of
                                (verr, vtr) \<Rightarrow>
                                  if verr = Some ErrUnsupportedCryptsetupVersion
                                  then Some (Inl ErrUnsupportedCryptsetupVersion,
                                         tr @ [Exec (open_argv cryptsetup path nextCrypt) key] @ vtr)
                                  else if Contains out ''No key available''
                                  then Some (Inl ErrInvalidPassphrase,
                                         tr @ [Exec (open_argv cryptsetup path nextCrypt) key] @ vtr)
                                  else Some (Inl (ErrOpenFailed out verr),
                                         tr @ [Exec (open_argv cryptsetup path nextCrypt) key] @ vtr))
                   | (out, None) \<Rightarrow>
                        (case pollDevice w nextCrypt 0
                                (tr @ [Exec (open_argv cryptsetup path nextCrypt) key]) of
                           None \<Rightarrow> None
                         | Some (Some e, tr') \<Rightarrow> Some (Inl e, tr')
                         | Some (None, tr') \<Rightarrow> Some (Inr nextCrypt, tr'))))
      else Some (Inl ErrUnableToOpen, tr))"
  by pat_completeness auto
termination
  by (relation "measure (\<lambda>(w, cryptsetup, key, path, i, tr). maxRetries - i)") auto

declare openAttempts.simps [simp del]

definition Open :: "world \<Rightarrow> byte list \<Rightarrow> string \<Rightarrow> ((error + string) \<times> event list) option" where
  "Open w key path =
     (case lock_exclusive w ''/dev/mapper'' of
        Some e \<Rightarrow> Some (Inl ErrLock, [])
      | None \<Rightarrow>
          map_option (\<lambda>(r, tr). (r, [Lock ''/dev/mapper''] @ tr @ [Release ''/dev/mapper'']))
            (case find_bin w ''cryptsetup'' of
               Inl e \<Rightarrow> Some (Inl (ErrExt e), [])
             | Inr cryptsetup \<Rightarrow>
                 if \<not> is_owner w cryptsetup 0
                 then Some (Inl (ErrMustBeOwnedByRoot cryptsetup), [])
                 else openAttempts w cryptsetup key path 0 []))"

subsection \<open>EncryptFilesystem\<close>

definition luksFormat_argv :: "string \<Rightarrow> string \<Rightarrow> string list" where
  "luksFormat_argv cryptsetup loop =
     [cryptsetup, ''luksFormat'', ''--batch-mode'', ''--type'', ''luks2'', ''--key-file'', ''-'',
      loop]"

text \<open>
  \<^verbatim>\<open>EncryptFilesystem\<close> from the lookup of the \<^verbatim>\<open>cryptsetup\<close> binary onwards, once the
  temporary file \<open>cryptF\<close> is attached to the loop device \<open>loop\<close>; \<open>tr\<close> holds the effects
  performed before.
\<close>

definition encryptOnLoop ::
  "world \<Rightarrow> string \<Rightarrow> byte list \<Rightarrow> string \<Rightarrow> 64 word \<Rightarrow> string \<Rightarrow> event list
     \<Rightarrow> ((error + string) \<times> event list) option" where
  "encryptOnLoop w path key cryptF fSize loop tr =
     (case find_bin w ''cryptsetup'' of
        Inl e \<Rightarrow> Some (Inl (ErrExt e), tr)
      | Inr cryptsetup \<Rightarrow>
          if \<not> is_owner w cryptsetup 0 then Some (Inl (ErrMustBeOwnedByRoot cryptsetup), tr)
          else (case stdin_pipe w of
                  Some e \<Rightarrow> Some (Inl (ErrExt e), tr)
                | None \<Rightarrow>
                   (case run_cmd w (luksFormat_argv cryptsetup loop) key of
                      (out, Some e) \<Rightarrow>
                        (case checkCryptsetupVersion w cryptsetup of
                           (verr, vtr) \<Rightarrow>
                             if verr = Some ErrUnsupportedCryptsetupVersion
                             then Some (Inl ErrUnsupportedCryptsetupVersion,
                                    tr @ [Exec (luksFormat_argv cryptsetup loop) key] @ vtr)
                             else Some (Inl (ErrFormat cryptF out),
                                    tr @ [Exec (luksFormat_argv cryptsetup loop) key] @ vtr))
                    | (out, None) \<Rightarrow>
                        (case Open w key loop of
                           None \<Rightarrow> None
                         | Some (Inl e, otr) \<Rightarrow>
                             Some (Inl e, tr @ [Exec (luksFormat_argv cryptsetup loop) key] @ otr)
                         | Some (Inr nextCrypt, otr) \<Rightarrow>
                            (case copyDeviceContents w path (''/dev/mapper/'' @ nextCrypt) fSize of
                               None \<Rightarrow> None
                             | Some (Some e, cst) \<Rightarrow>
                                 Some (Inl e, tr @ [Exec (luksFormat_argv cryptsetup loop) key] @ otr
                                         @ [CopyTo (''/dev/mapper/'' @ nextCrypt) (dest_data cst)])
                             | Some (None, cst) \<Rightarrow>
                                (case snd (run_cmd w [cryptsetup, ''close'', nextCrypt] []) of
                                   Some e \<Rightarrow>
                                     Some (Inl (ErrExt e),
                                       tr @ [Exec (luksFormat_argv cryptsetup loop) key] @ otr
                                         @ [CopyTo (''/dev/mapper/'' @ nextCrypt) (dest_data cst),
                                            Exec [cryptsetup, ''close'', nextCrypt] []])
                                 | None \<Rightarrow>
                                     Some (Inr cryptF,
                                       tr @ [Exec (luksFormat_argv cryptsetup loop) key] @ otr
                                         @ [CopyTo (''/dev/mapper/'' @ nextCrypt) (dest_data cst),
                                            Exec [cryptsetup, ''close'', nextCrypt] []])))))))"

definition EncryptFilesystem ::
  "world \<Rightarrow> string \<Rightarrow> byte list \<Rightarrow> string \<Rightarrow> ((error + string) \<times> event list) option" where
  "EncryptFilesystem w path key tempdir =
     (case stat_size w path of
        Inl e \<Rightarrow> Some (Inl (ErrStatSize path), [])
      | Inr fSize \<Rightarrow>
         (case create_temp w tempdir of
            Inl e \<Rightarrow> Some (Inl (ErrExt e), [])
          | Inr cryptF \<Rightarrow>
             (case truncate_file w cryptF (fSize + 16 * 1024 * 1024) of
                Some e \<Rightarrow> Some (Inl (ErrExt e), [CreateTemp cryptF])
              | None \<Rightarrow>
                  if fSize + 16 * 1024 * 1024 <s 0
                  then Some (Inl (ErrExt (conversion_msg w (fSize + 16 * 1024 * 1024))),
                         [CreateTemp cryptF, Truncate cryptF (fSize + 16 * 1024 * 1024)])
                  else (case createLoop w cryptF 0 (fSize + 16 * 1024 * 1024) of
                          (Inl e, ltr) \<Rightarrow>
                            Some (Inl e,
                              [CreateTemp cryptF, Truncate cryptF (fSize + 16 * 1024 * 1024)] @ ltr)
                        | (Inr loop, ltr) \<Rightarrow>
                            encryptOnLoop w path key cryptF fSize loop
                              ([CreateTemp cryptF, Truncate cryptF (fSize + 16 * 1024 * 1024)] @ ltr)))))"

section \<open>Notions used in the statements\<close>

text \<open>The \<open>k\<close>-th delay of the wait for the mapper device, as \<^verbatim>\<open>Open\<close> computes it.\<close>

definition delay :: "nat \<Rightarrow> Duration" where
  "delay k = 100 * push_bit k 1 * Millisecond"


text \<open>
  How the wait ends at a poll whose \<^verbatim>\<open>os.Stat\<close> gave the result, and the first poll from
  \<open>k\<close> on, among the next \<open>f\<close>, at which the file is no longer reported missing.
\<close>

fun poll_outcome :: "string \<Rightarrow> stat_result \<Rightarrow> error option" where
  "poll_outcome n StatOk = None"
| "poll_outcome n (StatErr e) = Some (ErrExt e)"
| "poll_outcome n StatNotExist = Some (ErrDidNotShowUp n 25)"

fun poll_stop :: "(nat \<Rightarrow> stat_result) \<Rightarrow> nat \<Rightarrow> nat \<Rightarrow> nat" where
  "poll_stop st k 0 = k"
| "poll_stop st k (Suc f) = (if st k = StatNotExist then poll_stop st (Suc k) f else k)"

text \<open>
  Attempt \<open>j\<close> of \<^verbatim>\<open>Open\<close> collides: a name is generated, and \<^verbatim>\<open>cryptsetup open\<close> under
  that name fails with output that contains "Device already exists".
\<close>

definition collides :: "world \<Rightarrow> string \<Rightarrow> byte list \<Rightarrow> string \<Rightarrow> nat \<Rightarrow> bool" where
  "collides w cryptsetup key path j =
     (case new_uuid w j of
        Inl e \<Rightarrow> False
      | Inr n \<Rightarrow>
          n \<noteq> [] \<and>
          (case run_cmd w (open_argv cryptsetup path n) key of
             (out, Some e) \<Rightarrow> Contains out ''Device already exists''
           | (out, None) \<Rightarrow> False))"

definition attempt_name :: "world \<Rightarrow> nat \<Rightarrow> string" where
  "attempt_name w j = (case new_uuid w j of Inl e \<Rightarrow> [] | Inr n \<Rightarrow> n)"

definition attempt_exec :: "world \<Rightarrow> string \<Rightarrow> byte list \<Rightarrow> string \<Rightarrow> nat \<Rightarrow> event" where
  "attempt_exec w cryptsetup key path j = Exec (open_argv cryptsetup path (attempt_name w j)) key"

text \<open>The bytes the first \<open>k\<close> reads of the source deliver.\<close>

fun read_len :: "sys_read_result \<Rightarrow> nat" where
  "read_len (ReadN bs) = length bs"
| "read_len ReadFail = 0"

fun read_bytes :: "sys_read_result \<Rightarrow> byte list" where
  "read_bytes (ReadN bs) = bs"
| "read_bytes ReadFail = []"

definition supplied :: "world \<Rightarrow> nat \<Rightarrow> nat" where
  "supplied w k = (\<Sum>j\<leftarrow>[0 ..< k]. read_len (sys_read w j))"

definition supplied_data :: "world \<Rightarrow> nat \<Rightarrow> byte list" where
  "supplied_data w k = concat (map (\<lambda>j. read_bytes (sys_read w j)) [0 ..< k])"

text \<open>
  What holds of the copy each time the outer loop of \<^verbatim>\<open>copyDeviceContents\<close> tests its
  condition: the bytes written and counted are the bytes read so far.
\<close>

definition copy_inv :: "world \<Rightarrow> copy_state \<Rightarrow> bool" where
  "copy_inv w st =
     (sint (writtenSoFar st) = int (supplied w (reads_done st))
      \<and> dest_data st = supplied_data w (reads_done st))"

section \<open>Example inputs\<close>

text \<open>
  Two files as \<^verbatim>\<open>FileInfo\<close> may receive them, one with the zero modification time, and
  two runs of the start barrier: stage 2 sends \<open>c\<close> and then closes the socket, or sends
  \<open>c\<close> and then \<open>f\<close>.
\<close>

definition zero_time_info :: "unit os_FileInfo" where
  "zero_time_info = \<lparr> os_Name = ''passwd'', os_Size = 42, os_Mode = 0x1A4,
                       os_ModTime = \<lparr> sec = 0, nsec = 0 \<rparr>, os_Sys = () \<rparr>"

definition dated_info :: "unit os_FileInfo" where
  "dated_info = \<lparr> os_Name = ''group'', os_Size = 7, os_Mode = 0x1A4,
                   os_ModTime = \<lparr> sec = 63900000000, nsec = 5 \<rparr>, os_Sys = () \<rparr>"

definition barrier_then_eof :: start_env where
  "barrier_then_eof = \<lparr> new_file_ok = True, file_conn_err = None, pre_start = Some None,
      conn_read = (\<lambda>k. if k = 0 then RByte CHR ''c'' else REOF), post_start = None \<rparr>"

definition barrier_then_fatal :: start_env where
  "barrier_then_fatal = \<lparr> new_file_ok = True, file_conn_err = None, pre_start = Some None,
      conn_read = (\<lambda>k. if k = 0 then RByte CHR ''c'' else RByte CHR ''f''), post_start = None \<rparr>"

text \<open>
  A host on which every step succeeds at once: \<^verbatim>\<open>cryptsetup\<close> is found and owned by
  root, commands succeed silently, files and devices are there, each read of the source
  returns nothing, and the mapper names generated are \<open>three_names 0\<close>, \<open>1\<close>, \<open>2\<close>.
  The other hosts differ from it in what is named: the mapper device never shows up;
  the first two names, or all names, are already in use; the key is wrong; the installed
  \<^verbatim>\<open>cryptsetup\<close> is a 1.x; the binary is not owned by root.
\<close>

definition three_names :: "nat \<Rightarrow> string" where
  "three_names k =
     (if k = 0 then ''0b0f5a52-7c1e-4f0a-8d5e-2a9c4e6f1a01''
      else if k = 1 then ''9d3e8c14-2b6f-4a7d-b1c3-5e7f9a0b2c02''
      else ''c4a7e2d9-5f18-4b3c-a6d0-8b1d3f5e7a03'')"

definition quiet_world :: world where
  "quiet_world =
     \<lparr> lock_exclusive = (\<lambda>p. None),
       find_bin = (\<lambda>n. Inr (''/usr/sbin/'' @ n)),
       is_owner = (\<lambda>p uid. uid = 0),
       new_uuid = (\<lambda>k. Inr (three_names k)),
       run_cmd = (\<lambda>argv stdin. ([], None)),
       stdin_pipe = None,
       stat_path = (\<lambda>p k. StatOk),
       stat_size = (\<lambda>p. Inr 4096),
       create_temp = (\<lambda>d. Inr (d @ ''/crypt-101'')),
       truncate_file = (\<lambda>p n. None),
       get_max_loop_devices = Inr 256,
       attach_from_path = (\<lambda>p m off lim. Inr 0),
       sys_open = (\<lambda>p f. True),
       sys_read = (\<lambda>k. ReadN []),
       sys_write = (\<lambda>k buf. WriteN (length buf)),
       conversion_msg = (\<lambda>i. ''conversion issue'') \<rparr>"

definition never_shows_world :: world where
  "never_shows_world = quiet_world \<lparr> stat_path := (\<lambda>p k. StatNotExist) \<rparr>"

definition collide_twice_world :: world where
  "collide_twice_world =
     quiet_world
       \<lparr> run_cmd := (\<lambda>argv stdin.
            if last argv = three_names 0 \<or> last argv = three_names 1
            then (''Cannot use device, name is invalid or still in use. Device already exists.'',
                  Some ''exit status 5'')
            else ([], None)) \<rparr>"

definition collide_always_world :: world where
  "collide_always_world =
     quiet_world
       \<lparr> run_cmd := (\<lambda>argv stdin. (''Device already exists.'', Some ''exit status 5'')) \<rparr>"

definition wrong_key_world :: world where
  "wrong_key_world =
     quiet_world
       \<lparr> run_cmd := (\<lambda>argv stdin.
            if last argv = ''--version'' then (''cryptsetup 2.3.7'', None)
            else (''No key available with this passphrase.'', Some ''exit status 2'')) \<rparr>"


definition foreign_binary_world :: world where
  "foreign_binary_world = quiet_world \<lparr> is_owner := (\<lambda>p uid. False) \<rparr>"

text \<open>
  Two sources for the copy: one delivers three bytes and is then at end-of-file, the
  other delivers three bytes at every read.
\<close>

definition short_source_world :: world where
  "short_source_world =
     quiet_world \<lparr> sys_read := (\<lambda>k. if k = 0 then ReadN [1, 2, 3] else ReadN []) \<rparr>"

definition steady_source_world :: world where
  "steady_source_world = quiet_world \<lparr> sys_read := (\<lambda>k. ReadN [1, 2, 3]) \<rparr>"

section \<open>Properties of the RPC file snapshot\<close>

text \<open>
  C10. The snapshot reports name, size and mode as captured. \<^verbatim>\<open>ModTime()\<close> returns the
  captured time when that time is not the zero time; when it is, each call returns the
  clock's reading at the call, so two calls made at different times give different
  values.
\<close>

theorem fileInfo_snapshot:
  "Name (FileInfo fi) = os_Name fi \<and> Size (FileInfo fi) = os_Size fi
   \<and> Mode (FileInfo fi) = os_Mode fi
   \<and> (\<not> IsZero (os_ModTime fi) \<longrightarrow> ModTime (FileInfo fi) now = os_ModTime fi)
   \<and> (IsZero (os_ModTime fi) \<longrightarrow> ModTime (FileInfo fi) now = now)
   \<and> (IsZero (os_ModTime fi) \<and> now \<noteq> now'
        \<longrightarrow> ModTime (FileInfo fi) now \<noteq> ModTime (FileInfo fi) now')"
  by (simp add: Name_def Size_def Mode_def ModTime_def FileInfo_def)

theorem fileInfo_snapshot_witness:
  "IsZero (os_ModTime zero_time_info)
   \<and> ModTime (FileInfo zero_time_info) \<lparr> sec = 1, nsec = 0 \<rparr> = \<lparr> sec = 1, nsec = 0 \<rparr>
   \<and> ModTime (FileInfo zero_time_info) \<lparr> sec = 1, nsec = 0 \<rparr>
       \<noteq> ModTime (FileInfo zero_time_info) \<lparr> sec = 2, nsec = 0 \<rparr>
   \<and> \<not> IsZero (os_ModTime dated_info)
   \<and> ModTime (FileInfo dated_info) \<lparr> sec = 1, nsec = 0 \<rparr> = \<lparr> sec = 63900000000, nsec = 5 \<rparr>
   \<and> Name (FileInfo dated_info) = ''group''"
proof -
  have z: "IsZero (os_ModTime zero_time_info)"
    by (simp add: zero_time_info_def IsZero_def)
  have nz: "\<not> IsZero (os_ModTime dated_info)"
    by (simp add: dated_info_def IsZero_def)
  have t: "\<lparr> sec = 1, nsec = 0 \<rparr> \<noteq> \<lparr> sec = 2, nsec = 0 \<rparr>"
    by simp
  have d: "os_ModTime dated_info = \<lparr> sec = 63900000000, nsec = 5 \<rparr>" "os_Name dated_info = ''group''"
    by (simp_all add: dated_info_def)
  show ?thesis
    using z nz t d
      fileInfo_snapshot [of zero_time_info "\<lparr> sec = 1, nsec = 0 \<rparr>" "\<lparr> sec = 2, nsec = 0 \<rparr>"]
      fileInfo_snapshot [of dated_info "\<lparr> sec = 1, nsec = 0 \<rparr>" "\<lparr> sec = 2, nsec = 0 \<rparr>"]
    by metis
qed

section \<open>Properties of the start synchronizer\<close>

text \<open>
  Stage 2 writes \<open>c\<close> and closes the master socket: the second read returns end-of-file,
  the buffer still holds \<open>c\<close>, and the master calls \<^verbatim>\<open>PostStartProcess\<close>.
\<close>

theorem startContainer_eof_counterexample:
  "conn_read barrier_then_eof 0 = RByte CHR ''c'' \<and> conn_read barrier_then_eof 1 = REOF
   \<and> startContainer barrier_then_eof
       = [ConnRead, CallPreStartProcess, ConnRead, CallPostStartProcess, ConnClose]"
  by (simp add: barrier_then_eof_def startContainer_def waitExec_def)

text \<open>
  C1, as the code has it. After a first byte other than \<open>f\<close> and a successful
  \<^verbatim>\<open>PreStartProcess\<close>, the master reads the socket once more. It defers to the monitor,
  without calling \<^verbatim>\<open>PostStartProcess\<close>, when the second read returns the byte \<open>f\<close> or
  fails with an error other than end-of-file; on end-of-file and on any other byte it
  calls \<^verbatim>\<open>PostStartProcess\<close>.
\<close>

theorem startContainer_second_read:
  assumes "new_file_ok env" and "file_conn_err env = None" and "pre_start env = Some None"
    and "conn_read env 0 = RByte b" and "b \<noteq> CHR ''f''"
  shows "startContainer env =
           [ConnRead, CallPreStartProcess, ConnRead]
           @ (if conn_read env 1 = RByte CHR ''f'' \<or> (\<exists>e. conn_read env 1 = RErr e) then []
              else CallPostStartProcess
                   # (case post_start env of
                        Some e \<Rightarrow> [FatalSend (''post start process failed: '' @ e)]
                      | None \<Rightarrow> []))
           @ [ConnClose]"
  using assms
  by (cases "conn_read env 1") (auto simp: startContainer_def waitExec_def split: option.splits)

theorem startContainer_second_read_witness:
  "startContainer barrier_then_eof
     = [ConnRead, CallPreStartProcess, ConnRead, CallPostStartProcess, ConnClose]
   \<and> startContainer barrier_then_fatal = [ConnRead, CallPreStartProcess, ConnRead, ConnClose]"
  using startContainer_second_read [of barrier_then_eof "CHR ''c''"]
    startContainer_second_read [of barrier_then_fatal "CHR ''c''"]
  by (simp add: barrier_then_eof_def barrier_then_fatal_def)

section \<open>Properties of the master\<close>

lemma deliver_all:
  "notified c = Some [] \<Longrightarrow>
   chan_buf (foldl deliver c ss)
     = chan_buf c @ take (chan_cap c - length (chan_buf c)) ss"
proof (induction ss arbitrary: c)
  case Nil
  then show ?case by simp
next
  case (Cons s ss)
  show ?case
  proof (cases "length (chan_buf c) < chan_cap c")
    case True
    then have d: "deliver c s = c \<lparr> chan_buf := chan_buf c @ [s] \<rparr>"
      using Cons.prems by (simp add: deliver_def relayed_def)
    have "chan_cap c - length (chan_buf c) = Suc (chan_cap c - Suc (length (chan_buf c)))"
      using True by simp
    then show ?thesis
      using Cons.IH [of "deliver c s"] Cons.prems d by simp
  next
    case False
    then have "deliver c s = c" by (simp add: deliver_def)
    then show ?thesis using Cons.IH [of c] Cons.prems False by simp
  qed
qed

text \<open>A \<^verbatim>\<open>SIGURG\<close> that arrives first is queued like any other signal.\<close>

theorem Master_signals_SIGURG_counterexample:
  "chan_buf (deliver Master_signals SIGURG) = [SIGURG]"
  by (simp add: Master_signals_def Notify_def make_chan_def deliver_def relayed_def)

text \<open>
  C7, as the code has it. The channel has capacity 2 and the handler relays every
  incoming signal to it, \<^verbatim>\<open>SIGURG\<close> included: of any sequence of signals that arrive
  before the monitor starts to receive, the channel holds the first two.
\<close>

theorem Master_signals_relays_all:
  "chan_cap Master_signals = 2 \<and> chan_buf (foldl deliver Master_signals ss) = take 2 ss"
  using deliver_all [of Master_signals ss]
  by (simp add: Master_signals_def Notify_def make_chan_def)

text \<open>
  C8. With no fatal error received, a child terminated by signal \<open>s\<close> makes the master
  clean up, reset its signal handlers, raise \<open>s\<close> on itself and call \<^verbatim>\<open>os.Exit(128 + s)\<close>;
  a child that exited makes it clean up, reset the handlers and exit with the child's
  exit status.
\<close>

theorem Master_exit:
  assumes "fatal env = None"
  shows "(Signaled (status env) \<longrightarrow>
            Master env =
              CleanupContainer None (status env)
              # (case cleanup_err env of
                   Some e \<Rightarrow> [Errorf (''container cleanup failed: '' @ e)] | None \<Rightarrow> [])
              @ [SignalReset, Raise (Signal (status env)), OsExit (128 + Signal (status env))])
       \<and> (Exited (status env) \<longrightarrow>
            Master env =
              CleanupContainer None (status env)
              # (case cleanup_err env of
                   Some e \<Rightarrow> [Errorf (''container cleanup failed: '' @ e)] | None \<Rightarrow> [])
              @ [SignalReset, OsExit (ExitStatus (status env))])"
  using assms by (auto simp: Master_def Signaled_def Exited_def split: option.splits)

theorem Master_exit_witness:
  "Master \<lparr> fatal = None, status = 9, cleanup_err = None \<rparr>
     = [CleanupContainer None 9, SignalReset, Raise 9, OsExit 137]
   \<and> Master \<lparr> fatal = None, status = 0x300, cleanup_err = None \<rparr>
     = [CleanupContainer None 0x300, SignalReset, OsExit 3]
   \<and> Master \<lparr> fatal = None, status = 0, cleanup_err = None \<rparr>
     = [CleanupContainer None 0, SignalReset, OsExit 0]"
  using Master_exit [of "\<lparr> fatal = None, status = 9, cleanup_err = None \<rparr>"]
    Master_exit [of "\<lparr> fatal = None, status = 0x300, cleanup_err = None \<rparr>"]
    Master_exit [of "\<lparr> fatal = None, status = 0, cleanup_err = None \<rparr>"]
  by (simp add: Signaled_def Exited_def Signal_def ExitStatus_def)

section \<open>The wait for the mapper device, step by step\<close>

lemma below_8: "k < 8 \<Longrightarrow> k = 0 \<or> k = 1 \<or> k = 2 \<or> k = 3 \<or> k = 4 \<or> k = 5 \<or> k = 6 \<or> k = (7::nat)"
  by arith

lemma delay_small: "k < 8 \<Longrightarrow> \<not> (25500 * Millisecond \<le>s delay k - 1)"
  by (drule below_8) (auto simp: delay_def Millisecond_def word_sle_eq)

lemma delay_8: "25500 * Millisecond \<le>s delay 8 - 1"
  by (simp add: delay_def Millisecond_def word_sle_eq)

lemma secs_8: "(word_of_int (sint (delay 8 - 1) sdiv sint Second) :: Duration) = 25"
  by (simp add: delay_def Millisecond_def Second_def signed_divide_int_def)



lemma poll_exit_ok:
  "stat_path w (''/dev/mapper/'' @ n) k = StatOk \<Longrightarrow> pollDevice w n k tr = Some (None, tr)"
  by (subst pollDevice.simps) simp

lemma poll_exit_err:
  "stat_path w (''/dev/mapper/'' @ n) k = StatErr e \<Longrightarrow>
   pollDevice w n k tr = Some (Some (ErrExt e), tr)"
  by (subst pollDevice.simps) simp

lemma poll_step:
  "k < 8 \<Longrightarrow> stat_path w (''/dev/mapper/'' @ n) k = StatNotExist \<Longrightarrow>
   pollDevice w n k tr = pollDevice w n (Suc k) (tr @ [Sleep (delay k)])"
  using delay_small [of k]
  by (subst pollDevice.simps) (simp add: delay_def Let_def)

lemma poll_timeout:
  "stat_path w (''/dev/mapper/'' @ n) 8 = StatNotExist \<Longrightarrow>
   pollDevice w n 8 tr = Some (Some (ErrDidNotShowUp n 25), tr)"
  using delay_8 secs_8
  by (subst pollDevice.simps) (simp add: delay_def Let_def)

lemma poll_stop_bounds: "k \<le> poll_stop st k f \<and> poll_stop st k f \<le> k + f"
proof (induction f arbitrary: k)
  case 0
  then show ?case by simp
next
  case (Suc f)
  show ?case using Suc.IH [of "Suc k"] by simp
qed

lemma poll_stop_before:
  "k \<le> j \<Longrightarrow> j < poll_stop st k f \<Longrightarrow> st j = StatNotExist"
proof (induction f arbitrary: k)
  case 0
  then show ?case by simp
next
  case (Suc f)
  show ?case
  proof (cases "st k = StatNotExist")
    case True
    show ?thesis
    proof (cases "j = k")
      case True
      with \<open>st k = StatNotExist\<close> show ?thesis by simp
    next
      case False
      with Suc.prems True have "Suc k \<le> j" "j < poll_stop st (Suc k) f" by simp_all
      then show ?thesis by (rule Suc.IH)
    qed
  next
    case False
    with Suc.prems show ?thesis by simp
  qed
qed


lemma poll_run:
  "k + f = 8 \<Longrightarrow>
   pollDevice w n k tr =
     Some (poll_outcome n (stat_path w (''/dev/mapper/'' @ n)
                             (poll_stop (stat_path w (''/dev/mapper/'' @ n)) k f)),
           tr @ map (\<lambda>j. Sleep (delay j)) [k ..< poll_stop (stat_path w (''/dev/mapper/'' @ n)) k f])"
proof (induction f arbitrary: k tr)
  case 0
  then have k: "k = 8" by simp
  show ?case
    by (cases "stat_path w (''/dev/mapper/'' @ n) 8")
       (simp_all add: k poll_exit_ok poll_exit_err poll_timeout)
next
  case (Suc f)
  then have k: "k < 8" and k': "Suc k + f = 8" by simp_all
  show ?case
  proof (cases "stat_path w (''/dev/mapper/'' @ n) k")
    case StatOk
    then show ?thesis by (simp add: poll_exit_ok)
  next
    case (StatErr e)
    then show ?thesis by (simp add: poll_exit_err)
  next
    case StatNotExist
    have le: "Suc k \<le> poll_stop (stat_path w (''/dev/mapper/'' @ n)) (Suc k) f"
      using poll_stop_bounds [of "Suc k" "stat_path w (''/dev/mapper/'' @ n)" f] by simp
    then have "[k ..< poll_stop (stat_path w (''/dev/mapper/'' @ n)) (Suc k) f]
                 = k # [Suc k ..< poll_stop (stat_path w (''/dev/mapper/'' @ n)) (Suc k) f]"
      by (simp add: upt_conv_Cons)
    then show ?thesis
      using StatNotExist poll_step [OF k StatNotExist, of tr]
        Suc.IH [OF k', of "tr @ [Sleep (delay k)]"]
      by simp
  qed
qed





section \<open>Properties of Open\<close>

lemma attempts_skip:
  "i + d \<le> maxRetries \<Longrightarrow>
   (\<forall>j. i \<le> j \<and> j < i + d \<longrightarrow> collides w c key path j) \<Longrightarrow>
   openAttempts w c key path i tr
     = openAttempts w c key path (i + d) (tr @ map (attempt_exec w c key path) [i ..< i + d])"
proof (induction d arbitrary: i tr)
  case 0
  then show ?case by simp
next
  case (Suc d)
  have i: "i < maxRetries" using Suc.prems(1) by simp
  have ci: "collides w c key path i" using Suc.prems(2) by simp
  have step: "openAttempts w c key path i tr
                = openAttempts w c key path (Suc i) (tr @ [attempt_exec w c key path i])"
    using i ci
    by (subst openAttempts.simps)
       (auto simp: collides_def getNextAvailableCryptDevice_def attempt_exec_def attempt_name_def
             split: sum.splits prod.splits option.splits)
  have rest: "openAttempts w c key path (Suc i) (tr @ [attempt_exec w c key path i])
                = openAttempts w c key path (Suc i + d)
                    ((tr @ [attempt_exec w c key path i])
                       @ map (attempt_exec w c key path) [Suc i ..< Suc i + d])"
    using Suc.prems by (intro Suc.IH) auto
  have "[i ..< i + Suc d] = i # [Suc i ..< Suc i + d]"
    by (simp add: upt_conv_Cons)
  with step rest show ?case by simp
qed

lemma poll_appears:
  "a \<le> k \<Longrightarrow> k \<le> 8 \<Longrightarrow> stat_path w (''/dev/mapper/'' @ n) k = StatOk \<Longrightarrow>
   (\<forall>j. a \<le> j \<and> j < k \<longrightarrow> stat_path w (''/dev/mapper/'' @ n) j = StatNotExist) \<Longrightarrow>
   pollDevice w n a tr = Some (None, tr @ map (\<lambda>j. Sleep (delay j)) [a ..< k])"
proof (induction "k - a" arbitrary: a tr)
  case 0
  then have "a = k" by simp
  with 0 show ?case by (simp add: poll_exit_ok)
next
  case (Suc x)
  then have a: "a < k" "a < 8" by simp_all
  have ne: "stat_path w (''/dev/mapper/'' @ n) a = StatNotExist"
    using Suc.prems a by simp
  have "pollDevice w n (Suc a) (tr @ [Sleep (delay a)])
          = Some (None, (tr @ [Sleep (delay a)]) @ map (\<lambda>j. Sleep (delay j)) [Suc a ..< k])"
    using Suc.hyps Suc.prems a by (intro Suc.hyps(1)) auto
  moreover have "[a ..< k] = a # [Suc a ..< k]"
    using a by (simp add: upt_conv_Cons)
  ultimately show ?case
    using poll_step [OF a(2) ne, of tr] by simp
qed

lemma attempt_succeeds:
  "i < maxRetries \<Longrightarrow> new_uuid w i = Inr n \<Longrightarrow> n \<noteq> [] \<Longrightarrow>
   run_cmd w (open_argv c path n) key = (out, None) \<Longrightarrow>
   pollDevice w n 0 (tr @ [Exec (open_argv c path n) key]) = Some (None, tr') \<Longrightarrow>
   openAttempts w c key path i tr = Some (Inr n, tr')"
  by (subst openAttempts.simps) (simp add: getNextAvailableCryptDevice_def)

lemma attempts_exhausted:
  "openAttempts w c key path maxRetries tr = Some (Inl ErrUnableToOpen, tr)"
  by (subst openAttempts.simps) simp

lemma Open_body:
  "lock_exclusive w ''/dev/mapper'' = None \<Longrightarrow> find_bin w ''cryptsetup'' = Inr c \<Longrightarrow>
   is_owner w c 0 \<Longrightarrow> openAttempts w c key path 0 [] = Some (r, tr) \<Longrightarrow>
   Open w key path = Some (r, [Lock ''/dev/mapper''] @ tr @ [Release ''/dev/mapper''])"
  by (simp add: Open_def)

lemma attempt_polls:
  "i < maxRetries \<Longrightarrow> new_uuid w i = Inr n \<Longrightarrow> n \<noteq> [] \<Longrightarrow>
   run_cmd w (open_argv c path n) key = (out, None) \<Longrightarrow>
   pollDevice w n 0 (tr @ [Exec (open_argv c path n) key]) = Some (p, tr') \<Longrightarrow>
   openAttempts w c key path i tr = Some (case p of Some e \<Rightarrow> Inl e | None \<Rightarrow> Inr n, tr')"
  by (subst openAttempts.simps)
     (simp add: getNextAvailableCryptDevice_def split: option.splits)




lemma never_stop: "poll_stop (\<lambda>k. StatNotExist) 0 8 = 8"
  by (simp add: eval_nat_numeral)

lemma delay_schedule: "map (\<lambda>j. Sleep (delay j)) [0 ..< 8] =
    [Sleep 100000000, Sleep 200000000, Sleep 400000000, Sleep 800000000, Sleep 1600000000,
     Sleep 3200000000, Sleep 6400000000, Sleep 12800000000]"
  by code_simp

text \<open>
  The run in which the device never shows up: eight waits, from 0.1 s to 12.8 s, then
  the error, which reports 25 seconds.
\<close>

lemma Open_never_shows_run:
  "Open never_shows_world [7, 7] ''/dev/loop3'' =
     Some (Inl (ErrDidNotShowUp (three_names 0) 25),
           [Lock ''/dev/mapper'',
            Exec (open_argv ''/usr/sbin/cryptsetup'' ''/dev/loop3'' (three_names 0)) [7, 7],
            Sleep 100000000, Sleep 200000000, Sleep 400000000, Sleep 800000000,
            Sleep 1600000000, Sleep 3200000000, Sleep 6400000000, Sleep 12800000000,
            Release ''/dev/mapper''])"
proof -
  have st: "stat_path never_shows_world = (\<lambda>p k. StatNotExist)"
    by (simp add: never_shows_world_def quiet_world_def)
  have poll: "pollDevice never_shows_world (three_names 0) 0
                ([] @ [Exec (open_argv ''/usr/sbin/cryptsetup'' ''/dev/loop3'' (three_names 0)) [7, 7]])
              = Some (Some (ErrDidNotShowUp (three_names 0) 25),
                  [Exec (open_argv ''/usr/sbin/cryptsetup'' ''/dev/loop3'' (three_names 0)) [7, 7]]
                  @ map (\<lambda>j. Sleep (delay j)) [0 ..< 8])"
    using poll_run [of 0 8 never_shows_world "three_names 0"
        "[Exec (open_argv ''/usr/sbin/cryptsetup'' ''/dev/loop3'' (three_names 0)) [7, 7]]"]
    by (simp add: st never_stop)
  have att: "openAttempts never_shows_world ''/usr/sbin/cryptsetup'' [7, 7] ''/dev/loop3'' 0 []
          = Some (Inl (ErrDidNotShowUp (three_names 0) 25),
                  [Exec (open_argv ''/usr/sbin/cryptsetup'' ''/dev/loop3'' (three_names 0)) [7, 7]]
                  @ map (\<lambda>j. Sleep (delay j)) [0 ..< 8])"
    using attempt_polls [of 0 never_shows_world "three_names 0" "''/usr/sbin/cryptsetup''"
        "''/dev/loop3''" "[7, 7]" "[]" "[]", OF _ _ _ _ poll]
    by (simp add: never_shows_world_def quiet_world_def maxRetries_def three_names_def)
  show ?thesis
    using Open_body [of never_shows_world "''/usr/sbin/cryptsetup''" "[7, 7]" "''/dev/loop3''", OF _ _ _ att]
    by (simp add: delay_schedule) (simp add: never_shows_world_def quiet_world_def)
qed

text \<open>
  C3. Each attempt of \<^verbatim>\<open>Open\<close> whose \<^verbatim>\<open>cryptsetup open\<close> fails with "Device already
  exists" is followed by an attempt under the next generated name, three attempts at
  most. When the first two attempts collide and the third succeeds, \<^verbatim>\<open>Open\<close> returns the
  name of the third attempt once the device shows up; when the third collides too,
  \<^verbatim>\<open>Open\<close> has run \<^verbatim>\<open>cryptsetup open\<close> three times, under the three names, and fails
  with "unable to open crypt device".
\<close>

theorem Open_retries:
  assumes lock: "lock_exclusive w ''/dev/mapper'' = None"
    and bin: "find_bin w ''cryptsetup'' = Inr cryptsetup"
    and own: "is_owner w cryptsetup 0"
    and c0: "collides w cryptsetup key path 0"
    and c1: "collides w cryptsetup key path 1"
  shows "(collides w cryptsetup key path 2 \<longrightarrow>
            Open w key path =
              Some (Inl ErrUnableToOpen,
                    [Lock ''/dev/mapper'', attempt_exec w cryptsetup key path 0,
                     attempt_exec w cryptsetup key path 1, attempt_exec w cryptsetup key path 2,
                     Release ''/dev/mapper'']))
       \<and> (new_uuid w 2 = Inr n \<and> n \<noteq> []
            \<and> run_cmd w (open_argv cryptsetup path n) key = (out, None)
            \<and> k \<le> 8 \<and> stat_path w (''/dev/mapper/'' @ n) k = StatOk
            \<and> (\<forall>j<k. stat_path w (''/dev/mapper/'' @ n) j = StatNotExist) \<longrightarrow>
            Open w key path =
              Some (Inr n,
                    [Lock ''/dev/mapper'', attempt_exec w cryptsetup key path 0,
                     attempt_exec w cryptsetup key path 1, Exec (open_argv cryptsetup path n) key]
                    @ map (\<lambda>j. Sleep (delay j)) [0 ..< k] @ [Release ''/dev/mapper'']))"
proof (intro conjI impI)
  assume c2: "collides w cryptsetup key path 2"
  have all: "\<forall>j. 0 \<le> j \<and> j < 0 + 3 \<longrightarrow> collides w cryptsetup key path j"
  proof (intro allI impI)
    fix j :: nat
    assume "0 \<le> j \<and> j < 0 + 3"
    then have "j = 0 \<or> j = 1 \<or> j = 2" by arith
    with c0 c1 c2 show "collides w cryptsetup key path j" by auto
  qed
  have up: "[0 ..< 3] = [0, 1, 2::nat]"
    by (simp add: upt_conv_Cons)
  have "openAttempts w cryptsetup key path 0 []
          = openAttempts w cryptsetup key path 3
              [attempt_exec w cryptsetup key path 0, attempt_exec w cryptsetup key path 1,
               attempt_exec w cryptsetup key path 2]"
    using attempts_skip [of 0 3 w cryptsetup key path "[]"] all
    by (simp add: maxRetries_def up)
  also have "\<dots> = Some (Inl ErrUnableToOpen,
                        [attempt_exec w cryptsetup key path 0, attempt_exec w cryptsetup key path 1,
                         attempt_exec w cryptsetup key path 2])"
    using attempts_exhausted [of w cryptsetup key path] by (simp add: maxRetries_def)
  finally show "Open w key path =
              Some (Inl ErrUnableToOpen,
                    [Lock ''/dev/mapper'', attempt_exec w cryptsetup key path 0,
                     attempt_exec w cryptsetup key path 1, attempt_exec w cryptsetup key path 2,
                     Release ''/dev/mapper''])"
    using Open_body [OF lock bin own] by simp
next
  assume a: "new_uuid w 2 = Inr n \<and> n \<noteq> []
            \<and> run_cmd w (open_argv cryptsetup path n) key = (out, None)
            \<and> k \<le> 8 \<and> stat_path w (''/dev/mapper/'' @ n) k = StatOk
            \<and> (\<forall>j<k. stat_path w (''/dev/mapper/'' @ n) j = StatNotExist)"
  then have u: "new_uuid w 2 = Inr n" and ne: "n \<noteq> []"
    and run: "run_cmd w (open_argv cryptsetup path n) key = (out, None)"
    and k: "k \<le> 8" and ok: "stat_path w (''/dev/mapper/'' @ n) k = StatOk"
    and missing: "\<forall>j. 0 \<le> j \<and> j < k \<longrightarrow> stat_path w (''/dev/mapper/'' @ n) j = StatNotExist"
    by simp_all
  have all: "\<forall>j. 0 \<le> j \<and> j < 0 + 2 \<longrightarrow> collides w cryptsetup key path j"
  proof (intro allI impI)
    fix j :: nat
    assume "0 \<le> j \<and> j < 0 + 2"
    then have "j = 0 \<or> j = 1" by arith
    with c0 c1 show "collides w cryptsetup key path j" by auto
  qed
  have up: "[0 ..< 2] = [0, 1::nat]"
    by (simp add: upt_conv_Cons)
  have poll: "pollDevice w n 0
                 ([attempt_exec w cryptsetup key path 0, attempt_exec w cryptsetup key path 1]
                    @ [Exec (open_argv cryptsetup path n) key])
                = Some (None,
                    ([attempt_exec w cryptsetup key path 0, attempt_exec w cryptsetup key path 1]
                       @ [Exec (open_argv cryptsetup path n) key])
                    @ map (\<lambda>j. Sleep (delay j)) [0 ..< k])"
    using k ok missing by (intro poll_appears) simp_all
  have two: "(2::nat) < maxRetries" by (simp add: maxRetries_def)
  have "openAttempts w cryptsetup key path 0 []
          = openAttempts w cryptsetup key path 2
              [attempt_exec w cryptsetup key path 0, attempt_exec w cryptsetup key path 1]"
    using attempts_skip [of 0 2 w cryptsetup key path "[]"] all
    by (simp add: maxRetries_def up numeral_2_eq_2)
  also have "\<dots> = Some (Inr n,
                  ([attempt_exec w cryptsetup key path 0, attempt_exec w cryptsetup key path 1]
                       @ [Exec (open_argv cryptsetup path n) key])
                  @ map (\<lambda>j. Sleep (delay j)) [0 ..< k])"
    using attempt_succeeds [OF two u ne run poll] .
  finally show "Open w key path =
              Some (Inr n,
                    [Lock ''/dev/mapper'', attempt_exec w cryptsetup key path 0,
                     attempt_exec w cryptsetup key path 1, Exec (open_argv cryptsetup path n) key]
                    @ map (\<lambda>j. Sleep (delay j)) [0 ..< k] @ [Release ''/dev/mapper''])"
    using Open_body [OF lock bin own] by simp
qed


theorem Open_retries_witness:
  "Open collide_always_world [7, 7] ''/dev/loop3'' =
     Some (Inl ErrUnableToOpen,
           [Lock ''/dev/mapper'',
            Exec (open_argv ''/usr/sbin/cryptsetup'' ''/dev/loop3'' (three_names 0)) [7, 7],
            Exec (open_argv ''/usr/sbin/cryptsetup'' ''/dev/loop3'' (three_names 1)) [7, 7],
            Exec (open_argv ''/usr/sbin/cryptsetup'' ''/dev/loop3'' (three_names 2)) [7, 7],
            Release ''/dev/mapper''])
   \<and> Open collide_twice_world [7, 7] ''/dev/loop3'' =
     Some (Inr (three_names 2),
           [Lock ''/dev/mapper'',
            Exec (open_argv ''/usr/sbin/cryptsetup'' ''/dev/loop3'' (three_names 0)) [7, 7],
            Exec (open_argv ''/usr/sbin/cryptsetup'' ''/dev/loop3'' (three_names 1)) [7, 7],
            Exec (open_argv ''/usr/sbin/cryptsetup'' ''/dev/loop3'' (three_names 2)) [7, 7],
            Release ''/dev/mapper''])"
  using Open_retries [of collide_always_world "''/usr/sbin/cryptsetup''" "[7, 7]" "''/dev/loop3''"]
    Open_retries [of collide_twice_world "''/usr/sbin/cryptsetup''" "[7, 7]" "''/dev/loop3''"
      "three_names 2" "[]" 0]
  by (simp add: collide_always_world_def collide_twice_world_def quiet_world_def collides_def
        attempt_exec_def attempt_name_def three_names_def open_argv_def)

lemma attempt_wrong_key:
  "i < maxRetries \<Longrightarrow> new_uuid w i = Inr name \<Longrightarrow> name \<noteq> [] \<Longrightarrow>
   run_cmd w (open_argv c path name) key = (out, Some e) \<Longrightarrow>
   \<not> Contains out ''Device already exists'' \<Longrightarrow> Contains out ''No key available'' \<Longrightarrow>
   fst (checkCryptsetupVersion w c) \<noteq> Some ErrUnsupportedCryptsetupVersion \<Longrightarrow>
   openAttempts w c key path i tr
     = Some (Inl ErrInvalidPassphrase,
             tr @ [Exec (open_argv c path name) key] @ snd (checkCryptsetupVersion w c))"
  by (subst openAttempts.simps)
     (auto simp: getNextAvailableCryptDevice_def split: prod.splits)

lemma version_2_supported:
  "run_cmd w [c, ''--version''] [] = (vout, None) \<Longrightarrow> Contains vout ''cryptsetup 2.'' \<Longrightarrow>
   fst (checkCryptsetupVersion w c) \<noteq> Some ErrUnsupportedCryptsetupVersion"
  by (simp add: checkCryptsetupVersion_def)

text \<open>
  C5. When the \<^verbatim>\<open>cryptsetup open\<close> of an attempt fails with output that contains "No key
  available" and not "Device already exists", and \<^verbatim>\<open>cryptsetup --version\<close> reports a
  2.x, \<^verbatim>\<open>Open\<close> returns \<^verbatim>\<open>ErrInvalidPassphrase\<close>, whose message is "no key available
  with this passphrase".
\<close>

theorem Open_wrong_key:
  assumes lock: "lock_exclusive w ''/dev/mapper'' = None"
    and bin: "find_bin w ''cryptsetup'' = Inr cryptsetup"
    and own: "is_owner w cryptsetup 0"
    and i: "i < maxRetries"
    and prev: "\<forall>j<i. collides w cryptsetup key path j"
    and uuid: "new_uuid w i = Inr name" and ne: "name \<noteq> []"
    and run: "run_cmd w (open_argv cryptsetup path name) key = (out, Some e)"
    and nokey: "Contains out ''No key available''"
    and noexist: "\<not> Contains out ''Device already exists''"
    and ver: "run_cmd w [cryptsetup, ''--version''] [] = (vout, None)"
    and v2: "Contains vout ''cryptsetup 2.''"
  shows "(\<exists>tr. Open w key path = Some (Inl ErrInvalidPassphrase, tr))
       \<and> Error ErrInvalidPassphrase = ''no key available with this passphrase''"
proof -
  have "openAttempts w cryptsetup key path 0 []
          = openAttempts w cryptsetup key path (0 + i)
              ([] @ map (attempt_exec w cryptsetup key path) [0 ..< 0 + i])"
    using i prev by (intro attempts_skip) simp_all
  also have "\<dots> = Some (Inl ErrInvalidPassphrase,
                   map (attempt_exec w cryptsetup key path) [0 ..< i]
                   @ [Exec (open_argv cryptsetup path name) key]
                   @ snd (checkCryptsetupVersion w cryptsetup))"
    using attempt_wrong_key [OF i uuid ne run noexist nokey version_2_supported [OF ver v2]]
    by simp
  finally show ?thesis
    using Open_body [OF lock bin own] by simp
qed

theorem Open_wrong_key_witness:
  "(\<exists>tr. Open wrong_key_world [7, 7] ''/dev/loop3'' = Some (Inl ErrInvalidPassphrase, tr))
   \<and> Error ErrInvalidPassphrase = ''no key available with this passphrase''"
  using Open_wrong_key [of wrong_key_world "''/usr/sbin/cryptsetup''" 0 "[7, 7]" "''/dev/loop3''"
      "three_names 0" "''No key available with this passphrase.''" "''exit status 2''"
      "''cryptsetup 2.3.7''"]
  by (simp add: wrong_key_world_def quiet_world_def three_names_def open_argv_def maxRetries_def)

section \<open>Properties of the ownership check\<close>

text \<open>
  C6. When the \<^verbatim>\<open>cryptsetup\<close> binary that \<^verbatim>\<open>bin.FindBin\<close> locates is not owned by uid 0,
  \<^verbatim>\<open>Open\<close>, \<^verbatim>\<open>CloseCryptDevice\<close> and \<^verbatim>\<open>EncryptFilesystem\<close> each return an error, and
  none of them has run the binary.
\<close>

theorem not_root_owned_fails:
  assumes bin: "find_bin w ''cryptsetup'' = Inr cryptsetup"
    and own: "\<not> is_owner w cryptsetup 0"
  shows "(\<exists>e tr. Open w key path = Some (Inl e, tr) \<and> \<not> list_ex is_Exec tr)
       \<and> CloseCryptDevice w path = (Some (ErrMustBeOwnedByRoot cryptsetup), [])
       \<and> (\<exists>e tr. EncryptFilesystem w img key tempdir = Some (Inl e, tr) \<and> \<not> list_ex is_Exec tr)"
proof (intro conjI)
  show "\<exists>e tr. Open w key path = Some (Inl e, tr) \<and> \<not> list_ex is_Exec tr"
    using bin own by (cases "lock_exclusive w ''/dev/mapper''") (simp_all add: Open_def)
  show "CloseCryptDevice w path = (Some (ErrMustBeOwnedByRoot cryptsetup), [])"
    using bin own by (simp add: CloseCryptDevice_def)
  have on_loop: "\<And>fSize cryptF loop tr.
      encryptOnLoop w img key cryptF fSize loop tr = Some (Inl (ErrMustBeOwnedByRoot cryptsetup), tr)"
    using bin own by (simp add: encryptOnLoop_def)
  show "\<exists>e tr. EncryptFilesystem w img key tempdir = Some (Inl e, tr) \<and> \<not> list_ex is_Exec tr"
    by (auto simp: EncryptFilesystem_def createLoop_def on_loop
             split: sum.splits option.splits prod.splits)
qed

theorem not_root_owned_fails_witness:
  "(\<exists>e tr. Open foreign_binary_world [7, 7] ''/dev/loop3'' = Some (Inl e, tr) \<and> \<not> list_ex is_Exec tr)
   \<and> CloseCryptDevice foreign_binary_world ''/dev/loop3''
        = (Some (ErrMustBeOwnedByRoot ''/usr/sbin/cryptsetup''), [])
   \<and> (\<exists>e tr. EncryptFilesystem foreign_binary_world ''/images/app.sqfs'' [7, 7] ''/tmp''
                 = Some (Inl e, tr) \<and> \<not> list_ex is_Exec tr)"
  using not_root_owned_fails [of foreign_binary_world "''/usr/sbin/cryptsetup''" "[7, 7]"
      "''/dev/loop3''" "''/images/app.sqfs''" "''/tmp''"]
  by (simp add: foreign_binary_world_def quiet_world_def)

section \<open>Properties of EncryptFilesystem\<close>






section \<open>Properties of copyDeviceContents\<close>

lemma sint_add_nat:
  fixes a :: "64 word"
  assumes "0 \<le> sint a" and "sint a + int n < 2 ^ 63"
  shows "sint (a + of_nat n) = sint a + int n"
proof -
  have "a + of_nat n = word_of_int (sint a + int n)"
    by simp
  then have "sint (a + of_nat n) = signed_take_bit (LENGTH(64) - 1) (sint a + int n)"
    by (simp only: sint_sbintrunc')
  also have "\<dots> = sint a + int n"
    using assms by (intro signed_take_bit_int_eq_self) simp_all
  finally show ?thesis .
qed

lemma supplied_Suc: "supplied w (Suc k) = supplied w k + read_len (sys_read w k)"
  by (simp add: supplied_def)

lemma supplied_data_Suc:
  "supplied_data w (Suc k) = supplied_data w k @ read_bytes (sys_read w k)"
  by (simp add: supplied_data_def)

lemma supplied_mono: "j \<le> k \<Longrightarrow> supplied w j \<le> supplied w k"
  by (induction k) (auto simp: supplied_Suc le_Suc_eq)

lemma length_supplied_data: "length (supplied_data w k) = supplied w k"
proof (induction k)
  case 0
  show ?case by (simp add: supplied_def supplied_data_def)
next
  case (Suc k)
  then show ?case
    by (cases "sys_read w k") (simp_all add: supplied_Suc supplied_data_Suc)
qed

lemma supplied_after_eof:
  "\<forall>j\<ge>k. sys_read w j = ReadN [] \<Longrightarrow> supplied w (k + d) = supplied w k"
  by (induction d) (simp_all add: supplied_Suc)

lemma writeLoop_completes:
  assumes W: "\<forall>k buf. buf \<noteq> [] \<longrightarrow> (\<exists>m. sys_write w k buf = WriteN m \<and> 0 < m \<and> m \<le> length buf)"
  shows "n \<le> length buffer \<Longrightarrow>
         \<exists>st'. writeLoop w dest buffer n st = Some (None, st')
              \<and> reads_done st' = reads_done st
              \<and> writtenSoFar st' = writtenSoFar st + of_nat (length buffer - n)
              \<and> dest_data st' = dest_data st @ drop n buffer"
proof (induction "length buffer - n" arbitrary: n st rule: less_induct)
  case less
  show ?case
  proof (cases "n < length buffer")
    case False
    with less.prems have "n = length buffer" by simp
    then show ?thesis
      by (subst writeLoop.simps) simp
  next
    case True
    then have "drop n buffer \<noteq> []" by simp
    with W obtain m where m: "sys_write w (writes_done st) (drop n buffer) = WriteN m"
        and m0: "0 < m" and mle: "m \<le> length (drop n buffer)"
      by blast
    define st1 where "st1 = st \<lparr> writes_done := writes_done st + 1,
                                  writtenSoFar := writtenSoFar st + of_nat m,
                                  dest_data := dest_data st @ take m (drop n buffer) \<rparr>"
    have nm: "n + m \<le> length buffer" using mle True by simp
    have dec: "length buffer - (n + m) < length buffer - n" using m0 True by simp
    from less.hyps [OF dec nm, of st1]
    obtain st' where r: "writeLoop w dest buffer (n + m) st1 = Some (None, st')"
        and rd: "reads_done st' = reads_done st1"
        and ws: "writtenSoFar st' = writtenSoFar st1 + of_nat (length buffer - (n + m))"
        and dd: "dest_data st' = dest_data st1 @ drop (n + m) buffer"
      by blast
    have step: "writeLoop w dest buffer n st = writeLoop w dest buffer (n + m) st1"
      using True m by (subst writeLoop.simps) (simp add: st1_def)
    have len: "length buffer - n = m + (length buffer - (n + m))"
      using nm by simp
    have "take m (drop n buffer) @ drop (n + m) buffer = drop n buffer"
      by (metis add.commute append_take_drop_id drop_drop)
    then have dd': "dest_data st' = dest_data st @ drop n buffer"
      using dd by (simp add: st1_def)
    have ws': "writtenSoFar st' = writtenSoFar st + of_nat (length buffer - n)"
      using ws by (simp add: st1_def len)
    show ?thesis
      using step r rd ws' dd' by (simp add: st1_def)
  qed
qed


lemma read_write_step:
  assumes R: "\<forall>k. \<exists>bs. sys_read w k = ReadN bs \<and> length bs \<le> 10240"
    and W: "\<forall>k buf. buf \<noteq> [] \<longrightarrow> (\<exists>m. sys_write w k buf = WriteN m \<and> 0 < m \<and> m \<le> length buf)"
    and range: "sint sz + 10240 < 2 ^ 63"
    and inv: "copy_inv w st"
    and less: "writtenSoFar st <s sz"
  shows "\<exists>bs st'. sys_read w (reads_done st) = ReadN bs \<and> length bs \<le> 10240
           \<and> writeLoop w dest bs 0 (st \<lparr> reads_done := reads_done st + 1 \<rparr>) = Some (None, st')
           \<and> copy_inv w st' \<and> reads_done st' = Suc (reads_done st)"
proof -
  from R obtain bs where bs: "sys_read w (reads_done st) = ReadN bs" and len: "length bs \<le> 10240"
    by blast
  from writeLoop_completes [OF W, of 0 bs dest "st \<lparr> reads_done := reads_done st + 1 \<rparr>"]
  obtain st' where wl: "writeLoop w dest bs 0 (st \<lparr> reads_done := reads_done st + 1 \<rparr>) = Some (None, st')"
      and rd: "reads_done st' = Suc (reads_done st)"
      and ws: "writtenSoFar st' = writtenSoFar st + of_nat (length bs)"
      and dd: "dest_data st' = dest_data st @ bs"
    by auto
  have w0: "sint (writtenSoFar st) = int (supplied w (reads_done st))"
    using inv by (simp add: copy_inv_def)
  have lt: "sint (writtenSoFar st) < sint sz"
    using less by (simp add: word_sless_alt)
  have "sint (writtenSoFar st + of_nat (length bs)) = sint (writtenSoFar st) + int (length bs)"
    using w0 lt len range by (intro sint_add_nat) simp_all
  then have "sint (writtenSoFar st') = int (supplied w (reads_done st'))"
    using ws rd w0 bs by (simp add: supplied_Suc)
  moreover have "dest_data st' = supplied_data w (reads_done st')"
    using dd rd inv bs by (simp add: copy_inv_def supplied_data_Suc)
  ultimately have "copy_inv w st'"
    by (simp add: copy_inv_def)
  with bs len wl rd show ?thesis by blast
qed

lemma copyLoop_step:
  assumes R: "\<forall>k. \<exists>bs. sys_read w k = ReadN bs \<and> length bs \<le> 10240"
    and W: "\<forall>k buf. buf \<noteq> [] \<longrightarrow> (\<exists>m. sys_write w k buf = WriteN m \<and> 0 < m \<and> m \<le> length buf)"
    and range: "sint sz + 10240 < 2 ^ 63"
    and inv: "copy_inv w st"
    and less: "writtenSoFar st <s sz"
  shows "\<exists>st'. copyLoop w source dest sz st = copyLoop w source dest sz st'
           \<and> copy_inv w st' \<and> reads_done st' = Suc (reads_done st)"
proof -
  from read_write_step [OF R W range inv less, of dest]
  obtain bs st' where bs: "sys_read w (reads_done st) = ReadN bs" and len: "length bs \<le> 10240"
      and wl: "writeLoop w dest bs 0 (st \<lparr> reads_done := reads_done st + 1 \<rparr>) = Some (None, st')"
      and inv': "copy_inv w st'" and rd: "reads_done st' = Suc (reads_done st)"
    by blast
  have "copyLoop w source dest sz st = copyLoop w source dest sz st'"
    using less bs len wl by (subst copyLoop.simps) simp
  with inv' rd show ?thesis by blast
qed

lemma copyLoop_returns:
  assumes R: "\<forall>k. \<exists>bs. sys_read w k = ReadN bs \<and> length bs \<le> 10240"
    and W: "\<forall>k buf. buf \<noteq> [] \<longrightarrow> (\<exists>m. sys_write w k buf = WriteN m \<and> 0 < m \<and> m \<le> length buf)"
    and range: "sint sz + 10240 < 2 ^ 63"
  shows "copy_inv w st \<Longrightarrow> reads_done st \<le> k \<Longrightarrow> sint sz \<le> int (supplied w k) \<Longrightarrow>
         (\<forall>j<reads_done st. int (supplied w j) < sint sz) \<Longrightarrow>
         \<exists>st'. copyLoop w source dest sz st = Some (None, st') \<and> copy_inv w st'
              \<and> sint sz \<le> int (supplied w (reads_done st'))
              \<and> (\<forall>j<reads_done st'. int (supplied w j) < sint sz)"
proof (induction "k - reads_done st" arbitrary: st)
  case 0
  then have "reads_done st = k" by simp
  with 0 have ge: "sint sz \<le> sint (writtenSoFar st)"
    by (simp add: copy_inv_def)
  then have "copyLoop w source dest sz st = Some (None, st)"
    by (subst copyLoop.simps) (simp add: word_sless_alt)
  with 0 \<open>reads_done st = k\<close> show ?case by simp
next
  case (Suc x)
  show ?case
  proof (cases "writtenSoFar st <s sz")
    case False
    then have "copyLoop w source dest sz st = Some (None, st)"
      by (subst copyLoop.simps) simp
    moreover have "sint sz \<le> int (supplied w (reads_done st))"
      using False Suc.prems(1) by (simp add: word_sless_alt copy_inv_def)
    ultimately show ?thesis using Suc.prems by simp
  next
    case True
    from copyLoop_step [OF R W range Suc.prems(1) True, of source dest]
    obtain st1 where eq: "copyLoop w source dest sz st = copyLoop w source dest sz st1"
        and inv1: "copy_inv w st1" and rd1: "reads_done st1 = Suc (reads_done st)"
      by blast
    have cur: "int (supplied w (reads_done st)) < sint sz"
      using True Suc.prems(1) by (simp add: word_sless_alt copy_inv_def)
    have x: "x = k - reads_done st1" using Suc.hyps(2) rd1 by simp
    have le: "reads_done st1 \<le> k" using Suc.hyps(2) rd1 by simp
    have before: "\<forall>j<reads_done st1. int (supplied w j) < sint sz"
      using Suc.prems(4) cur rd1 by (auto simp: less_Suc_eq)
    from Suc.hyps(1) [OF x inv1 le Suc.prems(3) before] eq
    show ?thesis by simp
  qed
qed

lemma copyLoop_diverges:
  assumes R: "\<forall>k. \<exists>bs. sys_read w k = ReadN bs \<and> length bs \<le> 10240"
    and W: "\<forall>k buf. buf \<noteq> [] \<longrightarrow> (\<exists>m. sys_write w k buf = WriteN m \<and> 0 < m \<and> m \<le> length buf)"
    and range: "sint sz + 10240 < 2 ^ 63"
    and never: "\<forall>k. int (supplied w k) < sint sz"
    and inv: "copy_inv w st"
  shows "copyLoop w source dest sz st = None"
proof (rule ccontr)
  assume "copyLoop w source dest sz st \<noteq> None"
  then obtain y where y: "copyLoop w source dest sz st = Some y" by auto
  have "(\<forall>k. \<exists>bs. sys_read w k = ReadN bs \<and> length bs \<le> 10240)
        \<longrightarrow> (\<forall>k buf. buf \<noteq> [] \<longrightarrow> (\<exists>m. sys_write w k buf = WriteN m \<and> 0 < m \<and> m \<le> length buf))
        \<longrightarrow> sint sz + 10240 < 2 ^ 63 \<longrightarrow> (\<forall>k. int (supplied w k) < sint sz) \<longrightarrow> copy_inv w st
        \<longrightarrow> False"
  proof (rule copyLoop.raw_induct [where P = "\<lambda>w source dest sz st y.
        (\<forall>k. \<exists>bs. sys_read w k = ReadN bs \<and> length bs \<le> 10240)
        \<longrightarrow> (\<forall>k buf. buf \<noteq> [] \<longrightarrow> (\<exists>m. sys_write w k buf = WriteN m \<and> 0 < m \<and> m \<le> length buf))
        \<longrightarrow> sint sz + 10240 < 2 ^ 63 \<longrightarrow> (\<forall>k. int (supplied w k) < sint sz) \<longrightarrow> copy_inv w st
        \<longrightarrow> False", OF _ y], goal_cases)
    case (1 f w source dest sz st y)
    note ih = "1"(1) and body = "1"(2)
    show ?case
    proof (intro impI)
      assume R: "\<forall>k. \<exists>bs. sys_read w k = ReadN bs \<and> length bs \<le> 10240"
        and W: "\<forall>k buf. buf \<noteq> [] \<longrightarrow> (\<exists>m. sys_write w k buf = WriteN m \<and> 0 < m \<and> m \<le> length buf)"
        and range: "sint sz + 10240 < 2 ^ 63"
        and never: "\<forall>k. int (supplied w k) < sint sz"
        and inv: "copy_inv w st"
      have less: "writtenSoFar st <s sz"
        using never inv by (simp add: word_sless_alt copy_inv_def)
      from read_write_step [OF R W range inv less, of dest]
      obtain bs st' where bs: "sys_read w (reads_done st) = ReadN bs" and len: "length bs \<le> 10240"
          and wl: "writeLoop w dest bs 0 (st \<lparr> reads_done := reads_done st + 1 \<rparr>) = Some (None, st')"
          and inv': "copy_inv w st'"
        by blast
      have len': "\<not> 10240 < length bs" using len by simp
      from body have "f w source dest sz st' = Some y"
        by (simp only: less if_True bs sys_read_result.case len' if_False wl
              Option.bind.simps fst_conv snd_conv option.case)
      from ih [OF this] have "(\<forall>k. \<exists>bs. sys_read w k = ReadN bs \<and> length bs \<le> 10240)
        \<longrightarrow> (\<forall>k buf. buf \<noteq> [] \<longrightarrow> (\<exists>m. sys_write w k buf = WriteN m \<and> 0 < m \<and> m \<le> length buf))
        \<longrightarrow> sint sz + 10240 < 2 ^ 63 \<longrightarrow> (\<forall>k. int (supplied w k) < sint sz) \<longrightarrow> copy_inv w st'
        \<longrightarrow> False" .
      then show False
        using R W range never inv' by (elim impE) assumption+
    qed
  qed
  then show False
    using R W range never inv by (elim impE) assumption+
qed

lemma copy_inv_init: "copy_inv w copy_init"
  by (simp add: copy_inv_def copy_init_def supplied_def supplied_data_def)

text \<open>
  C9. In a run where the files open, no read or write fails and every write writes
  something, \<^verbatim>\<open>copyDeviceContents\<close> returns exactly when the reads of the source deliver
  at least \<open>sz\<close> bytes. It then returns no error, after the first read that brings the
  total to \<open>sz\<close>; what it has written to the destination, and counted, is all that those
  reads delivered. When the reads never deliver \<open>sz\<close> bytes, and so when the source is
  at end-of-file before (each further read returns no bytes and no error), it does not
  return. The size is taken below \<open>2 ^ 63 - 10240\<close>, so that the 64-bit count cannot
  wrap around.
\<close>

theorem copyDeviceContents_termination:
  assumes src: "sys_open w source O_RDONLY" and dst: "sys_open w dest O_WRONLY"
    and R: "\<forall>k. \<exists>bs. sys_read w k = ReadN bs \<and> length bs \<le> 10240"
    and W: "\<forall>k buf. buf \<noteq> [] \<longrightarrow> (\<exists>m. sys_write w k buf = WriteN m \<and> 0 < m \<and> m \<le> length buf)"
    and range: "sint sz + 10240 < 2 ^ 63"
  shows "((\<exists>k. sint sz \<le> int (supplied w k)) \<longrightarrow>
            (\<exists>st. copyDeviceContents w source dest sz = Some (None, st)
                \<and> sint sz \<le> int (supplied w (reads_done st))
                \<and> (\<forall>j<reads_done st. int (supplied w j) < sint sz)
                \<and> dest_data st = supplied_data w (reads_done st)
                \<and> sint (writtenSoFar st) = int (length (dest_data st))))
       \<and> ((\<forall>k. int (supplied w k) < sint sz) \<longrightarrow> copyDeviceContents w source dest sz = None)
       \<and> (int (supplied w e) < sint sz \<and> (\<forall>j\<ge>e. sys_read w j = ReadN [])
            \<longrightarrow> copyDeviceContents w source dest sz = None)"
proof (intro conjI impI)
  assume "\<exists>k. sint sz \<le> int (supplied w k)"
  then obtain k where k: "sint sz \<le> int (supplied w k)" by blast
  from copyLoop_returns [OF R W range copy_inv_init _ k, of source dest]
  obtain st where r: "copyLoop w source dest sz copy_init = Some (None, st)"
      and inv: "copy_inv w st"
      and ge: "sint sz \<le> int (supplied w (reads_done st))"
      and before: "\<forall>j<reads_done st. int (supplied w j) < sint sz"
    by (auto simp: copy_init_def)
  have "sint (writtenSoFar st) = int (length (dest_data st))"
    using inv by (simp add: copy_inv_def length_supplied_data)
  with r inv ge before src dst
  show "\<exists>st. copyDeviceContents w source dest sz = Some (None, st)
                \<and> sint sz \<le> int (supplied w (reads_done st))
                \<and> (\<forall>j<reads_done st. int (supplied w j) < sint sz)
                \<and> dest_data st = supplied_data w (reads_done st)
                \<and> sint (writtenSoFar st) = int (length (dest_data st))"
    by (auto simp: copyDeviceContents_def copy_inv_def)
next
  assume never: "\<forall>k. int (supplied w k) < sint sz"
  show "copyDeviceContents w source dest sz = None"
    using src dst copyLoop_diverges [OF R W range never copy_inv_init]
    by (simp add: copyDeviceContents_def)
next
  assume eof: "int (supplied w e) < sint sz \<and> (\<forall>j\<ge>e. sys_read w j = ReadN [])"
  have never: "\<forall>k. int (supplied w k) < sint sz"
  proof
    fix k
    show "int (supplied w k) < sint sz"
    proof (cases "k \<le> e")
      case True
      then have "supplied w k \<le> supplied w e" by (rule supplied_mono)
      with eof show ?thesis by simp
    next
      case False
      then have "k = e + (k - e)" by simp
      then have "supplied w k = supplied w e"
        using supplied_after_eof [of e w "k - e"] eof by simp
      with eof show ?thesis by simp
    qed
  qed
  show "copyDeviceContents w source dest sz = None"
    using src dst copyLoop_diverges [OF R W range never copy_inv_init]
    by (simp add: copyDeviceContents_def)
qed

theorem copyDeviceContents_termination_witness:
  "(\<exists>st. copyDeviceContents steady_source_world ''/images/app.sqfs'' ''/dev/mapper/m'' 5
            = Some (None, st)
        \<and> 5 \<le> int (supplied steady_source_world (reads_done st))
        \<and> (\<forall>j<reads_done st. int (supplied steady_source_world j) < 5)
        \<and> dest_data st = supplied_data steady_source_world (reads_done st)
        \<and> sint (writtenSoFar st) = int (length (dest_data st)))
   \<and> copyDeviceContents short_source_world ''/images/app.sqfs'' ''/dev/mapper/m'' 5 = None"
proof -
  have five: "sint (5 :: 64 word) = 5" by simp
  have range: "sint (5 :: 64 word) + 10240 < 2 ^ 63" by simp
  have o1: "sys_open steady_source_world ''/images/app.sqfs'' O_RDONLY"
    and o2: "sys_open steady_source_world ''/dev/mapper/m'' O_WRONLY"
    and R1: "\<forall>k. \<exists>bs. sys_read steady_source_world k = ReadN bs \<and> length bs \<le> 10240"
    and W1: "\<forall>k buf. buf \<noteq> [] \<longrightarrow>
               (\<exists>m. sys_write steady_source_world k buf = WriteN m \<and> 0 < m \<and> m \<le> length buf)"
    by (simp_all add: steady_source_world_def quiet_world_def)
  have p1: "sys_open short_source_world ''/images/app.sqfs'' O_RDONLY"
    and p2: "sys_open short_source_world ''/dev/mapper/m'' O_WRONLY"
    and R2: "\<forall>k. \<exists>bs. sys_read short_source_world k = ReadN bs \<and> length bs \<le> 10240"
    and W2: "\<forall>k buf. buf \<noteq> [] \<longrightarrow>
               (\<exists>m. sys_write short_source_world k buf = WriteN m \<and> 0 < m \<and> m \<le> length buf)"
    and eof: "\<forall>j\<ge>1. sys_read short_source_world j = ReadN []"
    by (simp_all add: short_source_world_def quiet_world_def)
  have "supplied steady_source_world 2 = 6"
    by (simp add: supplied_def steady_source_world_def quiet_world_def upt_conv_Cons numeral_2_eq_2)
  then have a: "\<exists>k. sint (5 :: 64 word) \<le> int (supplied steady_source_world k)"
    by (intro exI [of _ 2]) simp
  have "supplied short_source_world 1 = 3"
    by (simp add: supplied_def short_source_world_def quiet_world_def)
  then have b: "int (supplied short_source_world 1) < sint (5 :: 64 word)"
    by simp
  show ?thesis
    using a b eof
      copyDeviceContents_termination [OF o1 o2 R1 W1 range, of 0]
      copyDeviceContents_termination [OF p1 p2 R2 W2 range, of 1]
    unfolding five by blast
qed

text \<open>
  The run on the source that delivers three bytes at each read, for a size of 5: two
  reads, and six bytes written.
\<close>

lemma copy_steady_run:
  "copyDeviceContents steady_source_world ''/images/app.sqfs'' ''/dev/mapper/m'' 5 =
     Some (None, \<lparr> reads_done = 2, writes_done = 2, writtenSoFar = 6,
                   dest_data = [1, 2, 3, 1, 2, 3] \<rparr>)"
  apply (simp add: copyDeviceContents_def steady_source_world_def quiet_world_def copy_init_def)
  apply (subst copyLoop.simps)
  apply (simp add: word_sless_alt)
  apply (subst writeLoop.simps, simp)
  apply (subst writeLoop.simps, simp)
  apply (subst copyLoop.simps)
  apply (simp add: word_sless_alt)
  apply (subst writeLoop.simps, simp)
  apply (subst writeLoop.simps, simp)
  apply (subst copyLoop.simps)
  apply (simp add: word_sless_alt)
  done

end
